theory Spec2Isabelle
  imports Main "HOL-Library.Product_Lexorder"
begin

section \<open>Python strings and integers\<close>

text \<open>
  A Python \<open>str\<close> is modelled as a \<open>string\<close> (a list of 8-bit characters): ASCII text
  character by character, anything else by its UTF-8 bytes. The string functions below
  follow CPython on ASCII text; \<open>int\<close> is modelled without the interpreter's limit on the
  number of digits (4300 by default).
\<close>

definition is_space :: "char \<Rightarrow> bool" where
  \<comment> \<open>\<open>str.isspace\<close> on ASCII: TAB, LF, VT, FF, CR, FS, GS, RS, US and the blank.\<close>
  "is_space c = (let n = (of_char c :: nat) in (9 \<le> n \<and> n \<le> 13) \<or> (28 \<le> n \<and> n \<le> 32))"

definition is_c_space :: "char \<Rightarrow> bool" where
  \<comment> \<open>what \<open>int\<close> skips around an ASCII literal: TAB, LF, VT, FF, CR and the blank\<close>
  "is_c_space c = (let n = (of_char c :: nat) in (9 \<le> n \<and> n \<le> 13) \<or> n = 32)"

definition is_digit :: "char \<Rightarrow> bool" where
  "is_digit c = (let n = (of_char c :: nat) in 48 \<le> n \<and> n \<le> 57)"

definition digit_val :: "char \<Rightarrow> nat" where
  "digit_val c = (of_char c :: nat) - 48"

definition py_strip :: "string \<Rightarrow> string" where
  \<comment> \<open>\<open>s.strip()\<close>\<close>
  "py_strip s = rev (dropWhile is_space (rev (dropWhile is_space s)))"

fun split_on :: "char \<Rightarrow> string \<Rightarrow> string list" where
  \<comment> \<open>\<open>s.split(sep)\<close> for a separator of one character\<close>
  "split_on sep [] = [[]]"
| "split_on sep (c # cs) =
     (if c = sep then [] # split_on sep cs
      else (case split_on sep cs of
              [] \<Rightarrow> [[c]]
            | w # ws \<Rightarrow> (c # w) # ws))"

fun digits_value :: "nat \<Rightarrow> string \<Rightarrow> nat option" where
  \<comment> \<open>the digits after the first one; a single underscore may stand between two digits\<close>
  "digits_value acc [] = Some acc"
| "digits_value acc [c] = (if is_digit c then Some (acc * 10 + digit_val c) else None)"
| "digits_value acc (c # d # ds) =
     (if is_digit c then digits_value (acc * 10 + digit_val c) (d # ds)
      else if c = CHR ''_'' \<and> is_digit d then digits_value (acc * 10 + digit_val d) ds
      else None)"

definition py_int :: "string \<Rightarrow> int option" where
  \<comment> \<open>\<open>int(s)\<close> in base 10: \<open>None\<close> where Python raises \<open>ValueError\<close>\<close>
  "py_int s =
     (let t = rev (dropWhile is_c_space (rev (dropWhile is_c_space s)));
          neg = (case t of [] \<Rightarrow> False | c # _ \<Rightarrow> c = CHR ''-'');
          body = (case t of [] \<Rightarrow> [] | c # cs \<Rightarrow> if c = CHR ''-'' \<or> c = CHR ''+'' then cs else t)
      in case body of
           [] \<Rightarrow> None
         | c # cs \<Rightarrow>
             if is_digit c
             then map_option (\<lambda>n. if neg then - int n else int n) (digits_value (digit_val c) cs)
             else None)"

section \<open>The schedule clock\<close>

text \<open>
  A naive \<open>datetime.datetime\<close>: the date by its proleptic Gregorian ordinal
  (\<open>date.toordinal()\<close>, 1 for 0001-01-01), then the time fields. Python compares two
  naive datetimes field by field, year first; the ordinal stands for year, month and day.
\<close>

record datetime =
  day :: nat
  hour :: nat
  minute :: nat
  second :: nat
  microsecond :: nat

record time_of_day =
  t_hour :: nat
  t_minute :: nat

datatype exn_class = ValueError | OverflowError

definition MAX_ORDINAL :: nat where
  \<comment> \<open>\<open>date.max.toordinal()\<close>, the ordinal of 9999-12-31\<close>
  "MAX_ORDINAL = 3652059"

definition dt_key :: "datetime \<Rightarrow> nat \<times> nat \<times> nat \<times> nat \<times> nat" where
  "dt_key d = (day d, hour d, minute d, second d, microsecond d)"

definition dt_le :: "datetime \<Rightarrow> datetime \<Rightarrow> bool" where
  "dt_le a b = (dt_key a \<le> dt_key b)"

definition dt_less :: "datetime \<Rightarrow> datetime \<Rightarrow> bool" where
  "dt_less a b = (dt_key a < dt_key b)"

definition add_one_day :: "datetime \<Rightarrow> exn_class + datetime" where
  \<comment> \<open>\<open>d + timedelta(days=1)\<close>: \<open>OverflowError\<close> past year 9999\<close>
  "add_one_day d = (if day d < MAX_ORDINAL then Inr (d\<lparr>day := day d + 1\<rparr>) else Inl OverflowError)"

definition fits_c_int :: "int \<Rightarrow> bool" where
  \<comment> \<open>\<open>datetime.time\<close> reads its arguments as C ints and raises \<open>OverflowError\<close> outside them\<close>
  "fits_c_int i = (- 2147483648 \<le> i \<and> i \<le> 2147483647)"

definition parse_time :: "string \<Rightarrow> exn_class + time_of_day" where
  \<comment> \<open>\<open>h, m = map(int, time_str.split(":")); return datetime.time(hour=h, minute=m)\<close>\<close>
  "parse_time time_str =
     (case split_on CHR '':'' time_str of
        [hs, ms] \<Rightarrow>
          (case py_int hs of
             None \<Rightarrow> Inl ValueError
           | Some h \<Rightarrow>
               (case py_int ms of
                  None \<Rightarrow> Inl ValueError
                | Some m \<Rightarrow>
                    if \<not> (fits_c_int h \<and> fits_c_int m) then Inl OverflowError
                    else if 0 \<le> h \<and> h \<le> 23 \<and> 0 \<le> m \<and> m \<le> 59
                    then Inr \<lparr>t_hour = nat h, t_minute = nat m\<rparr>
                    else Inl ValueError))
      | _ \<Rightarrow> Inl ValueError)"

definition push_candidate :: "datetime \<Rightarrow> string \<Rightarrow> exn_class + datetime" where
  \<comment> \<open>the body of the \<open>try\<close> in \<open>_get_next_push_time\<close>, for one configured string\<close>
  "push_candidate now t_str =
     (case parse_time t_str of
        Inl e \<Rightarrow> Inl e
      | Inr t \<Rightarrow>
          (let candidate = now\<lparr>hour := t_hour t, minute := t_minute t, second := 0, microsecond := 0\<rparr>
           in if dt_le candidate now then add_one_day candidate else Inr candidate))"

type_synonym warning = "string \<times> exn_class"

fun push_candidates :: "datetime \<Rightarrow> string list \<Rightarrow> datetime list \<times> warning list" where
  \<comment> \<open>the \<open>for\<close> loop: the candidates appended, and a warning for each string that raised\<close>
  "push_candidates now [] = ([], [])"
| "push_candidates now (t_str # rest) =
     (let (cands, warns) = push_candidates now rest
      in case push_candidate now t_str of
           Inl e \<Rightarrow> (cands, (t_str, e) # warns)
         | Inr c \<Rightarrow> (c # cands, warns))"

fun py_min :: "datetime \<Rightarrow> datetime list \<Rightarrow> datetime" where
  \<comment> \<open>\<open>min\<close> over a non-empty list: the first of the least elements\<close>
  "py_min best [] = best"
| "py_min best (c # cs) = py_min (if dt_less c best then c else best) cs"

definition get_next_push_time ::
  "datetime \<Rightarrow> string list \<Rightarrow> (exn_class + datetime) \<times> warning list" where
  "get_next_push_time now push_times =
     (let (cands, warns) = push_candidates now push_times
      in (case cands of
            [] \<Rightarrow> Inl ValueError
          | c # cs \<Rightarrow> Inr (py_min c cs),
          warns))"

definition config_push_times :: "string \<Rightarrow> string list" where
  \<comment> \<open>\<open>[t.strip() for t in push_time.split(",")]\<close> of \<open>__init__\<close>\<close>
  "config_push_times push_time = map py_strip (split_on CHR '','' push_time)"

text \<open>
  The specification's reading of one trigger: today at that hour and minute, seconds and
  microseconds zero, and one day later when that is not after \<open>now\<close>.
\<close>

definition today_at :: "datetime \<Rightarrow> time_of_day \<Rightarrow> datetime" where
  "today_at now t = \<lparr>day = day now, hour = t_hour t, minute = t_minute t, second = 0, microsecond = 0\<rparr>"

definition next_occurrence :: "datetime \<Rightarrow> time_of_day \<Rightarrow> datetime" where
  "next_occurrence now t =
     (if dt_le (today_at now t) now
      then \<lparr>day = day now + 1, hour = t_hour t, minute = t_minute t, second = 0, microsecond = 0\<rparr>
      else today_at now t)"

definition valid_times :: "string list \<Rightarrow> time_of_day list" where
  \<comment> \<open>the triggers that parse, in configuration order\<close>
  "valid_times push_times =
     concat (map (\<lambda>s. case parse_time s of Inl _ \<Rightarrow> [] | Inr t \<Rightarrow> [t]) push_times)"

definition valid_time_str :: "string \<Rightarrow> bool" where
  \<comment> \<open>the configured string parses as a time\<close>
  "valid_time_str s = (case parse_time s of Inl _ \<Rightarrow> False | Inr _ \<Rightarrow> True)"

section \<open>Parsed JSON and the content extractor\<close>

text \<open>
  What \<open>json.loads\<close> builds: \<open>None\<close>, \<open>bool\<close>, \<open>int\<close>, \<open>float\<close>, \<open>str\<close>, \<open>list\<close> and
  \<open>dict\<close>. A dict is the list of its items in insertion order, which is the order
  \<open>values()\<close> iterates in. A float is carried by the text \<open>repr\<close> prints for it.
\<close>

datatype json =
    JNull
  | JBool bool
  | JInt int
  | JFloat string
  | JStr string
  | JArr "json list"
  | JObj "(string \<times> json) list"

fun extract_first_string :: "json \<Rightarrow> string option"
  and first_string_in :: "json list \<Rightarrow> string option"
  and first_string_in_values :: "(string \<times> json) list \<Rightarrow> string option"
where
  "extract_first_string (JStr s) = Some s"
| "extract_first_string (JObj kvs) = first_string_in_values kvs"
| "extract_first_string (JArr xs) = first_string_in xs"
| "extract_first_string JNull = None"
| "extract_first_string (JBool b) = None"
| "extract_first_string (JInt i) = None"
| "extract_first_string (JFloat r) = None"
| "first_string_in [] = None"
| "first_string_in (item # rest) =
     (case extract_first_string item of
        Some res \<Rightarrow> if res \<noteq> [] then Some res else first_string_in rest
      | None \<Rightarrow> first_string_in rest)"
| "first_string_in_values [] = None"
| "first_string_in_values (kv # rest) =
     (case extract_first_string (snd kv) of
        Some res \<Rightarrow> if res \<noteq> [] then Some res else first_string_in_values rest
      | None \<Rightarrow> first_string_in_values rest)"

fun startswith :: "string \<Rightarrow> string \<Rightarrow> bool" where
  \<comment> \<open>\<open>s.startswith(p)\<close>\<close>
  "startswith s [] = True"
| "startswith [] (p # ps) = False"
| "startswith (c # cs) (p # ps) = (c = p \<and> startswith cs ps)"

fun contains :: "string \<Rightarrow> string \<Rightarrow> bool" where
  \<comment> \<open>\<open>sub in s\<close>\<close>
  "contains [] sub = (sub = [])"
| "contains (c # cs) sub = (startswith (c # cs) sub \<or> contains cs sub)"

definition looks_like_image_url :: "string \<Rightarrow> bool" where
  \<comment> \<open>\<open>obj.startswith("http") and any(ext in obj for ext in (".jpg", ".jpeg", ".png"))\<close>\<close>
  "looks_like_image_url s =
     (startswith s ''http'' \<and> (contains s ''.jpg'' \<or> contains s ''.jpeg'' \<or> contains s ''.png''))"

fun extract_first_image_url :: "json \<Rightarrow> string option"
  and first_image_url_in :: "json list \<Rightarrow> string option"
  and first_image_url_in_values :: "(string \<times> json) list \<Rightarrow> string option"
where
  "extract_first_image_url (JStr s) = (if looks_like_image_url s then Some s else None)"
| "extract_first_image_url (JObj kvs) = first_image_url_in_values kvs"
| "extract_first_image_url (JArr xs) = first_image_url_in xs"
| "extract_first_image_url JNull = None"
| "extract_first_image_url (JBool b) = None"
| "extract_first_image_url (JInt i) = None"
| "extract_first_image_url (JFloat r) = None"
| "first_image_url_in [] = None"
| "first_image_url_in (item # rest) =
     (case extract_first_image_url item of
        Some res \<Rightarrow> if res \<noteq> [] then Some res else first_image_url_in rest
      | None \<Rightarrow> first_image_url_in rest)"
| "first_image_url_in_values [] = None"
| "first_image_url_in_values (kv # rest) =
     (case extract_first_image_url (snd kv) of
        Some res \<Rightarrow> if res \<noteq> [] then Some res else first_image_url_in_values rest
      | None \<Rightarrow> first_image_url_in_values rest)"

text \<open>
  The specification's reading: every string value of the tree in depth-first order, an
  object's values in key order and an array's items in order.
\<close>

fun strings_of :: "json \<Rightarrow> string list"
  and strings_in :: "json list \<Rightarrow> string list"
  and strings_in_values :: "(string \<times> json) list \<Rightarrow> string list"
where
  "strings_of (JStr s) = [s]"
| "strings_of (JObj kvs) = strings_in_values kvs"
| "strings_of (JArr xs) = strings_in xs"
| "strings_of JNull = []"
| "strings_of (JBool b) = []"
| "strings_of (JInt i) = []"
| "strings_of (JFloat r) = []"
| "strings_in [] = []"
| "strings_in (item # rest) = strings_of item @ strings_in rest"
| "strings_in_values [] = []"
| "strings_in_values (kv # rest) = strings_of (snd kv) @ strings_in_values rest"

definition first_of :: "'a list \<Rightarrow> 'a option" where
  "first_of xs = (case xs of [] \<Rightarrow> None | x # _ \<Rightarrow> Some x)"

definition usable :: "string option \<Rightarrow> string option" where
  \<comment> \<open>what passes \<open>if res:\<close>: a result that is neither \<open>None\<close> nor the empty string\<close>
  "usable r = (case r of None \<Rightarrow> None | Some s \<Rightarrow> if s \<noteq> [] then Some s else None)"

definition has_http_scheme :: "string \<Rightarrow> bool" where
  \<comment> \<open>the specification's "starts with an HTTP(S) scheme": the scheme and its colon\<close>
  "has_http_scheme s = (startswith s ''http:'' \<or> startswith s ''https:'')"

section \<open>Python's \<open>str\<close>, \<open>repr\<close> and truth value of a parsed JSON value\<close>

fun nat_digits :: "nat \<Rightarrow> string" where
  \<comment> \<open>the decimal digits of a number, most significant first\<close>
  "nat_digits n =
     (if n < 10 then [''0123456789'' ! n]
      else nat_digits (n div 10) @ [''0123456789'' ! (n mod 10)])"

declare nat_digits.simps [simp del]

definition int_str :: "int \<Rightarrow> string" where
  \<comment> \<open>\<open>str(i)\<close> of an \<open>int\<close>\<close>
  "int_str i = (if i < 0 then CHR ''-'' # nat_digits (nat (- i)) else nat_digits (nat i))"

definition hex_digit :: "nat \<Rightarrow> char" where
  \<comment> \<open>for \<open>n < 16\<close>\<close>
  "hex_digit n = ''0123456789abcdef'' ! n"

definition repr_char :: "char \<Rightarrow> char \<Rightarrow> string" where
  \<comment> \<open>one character inside \<open>repr(s)\<close>, for the quote \<open>q\<close> chosen\<close>
  "repr_char q c =
     (let n = (of_char c :: nat)
      in if c = q \<or> c = CHR 0x5C then [CHR 0x5C, c]
         else if n = 9 then [CHR 0x5C, CHR ''t'']
         else if n = 10 then [CHR 0x5C, CHR ''n'']
         else if n = 13 then [CHR 0x5C, CHR ''r'']
         else if n < 32 \<or> n = 127 then [CHR 0x5C, CHR ''x'', hex_digit (n div 16), hex_digit (n mod 16)]
         else [c])"

definition repr_str :: "string \<Rightarrow> string" where
  \<comment> \<open>\<open>repr(s)\<close> of a \<open>str\<close>: double quotes only when it holds a single quote and no double one\<close>
  "repr_str s =
     (let q = (if CHR 0x27 \<in> set s \<and> CHR 0x22 \<notin> set s then CHR 0x22 else CHR 0x27)
      in q # concat (map (repr_char q) s) @ [q])"

fun join :: "string \<Rightarrow> string list \<Rightarrow> string" where
  \<comment> \<open>\<open>sep.join(parts)\<close>\<close>
  "join sep [] = []"
| "join sep [p] = p"
| "join sep (p # q # ps) = p @ sep @ join sep (q # ps)"

fun py_repr :: "json \<Rightarrow> string"
  and py_repr_items :: "json list \<Rightarrow> string list"
  and py_repr_pairs :: "(string \<times> json) list \<Rightarrow> string list"
where
  "py_repr JNull = ''None''"
| "py_repr (JBool b) = (if b then ''True'' else ''False'')"
| "py_repr (JInt i) = int_str i"
| "py_repr (JFloat r) = r"
| "py_repr (JStr s) = repr_str s"
| "py_repr (JArr xs) = ''['' @ join '', '' (py_repr_items xs) @ '']''"
| "py_repr (JObj kvs) = ''{'' @ join '', '' (py_repr_pairs kvs) @ ''}''"
| "py_repr_items [] = []"
| "py_repr_items (x # xs) = py_repr x # py_repr_items xs"
| "py_repr_pairs [] = []"
| "py_repr_pairs (kv # kvs) = (repr_str (fst kv) @ '': '' @ py_repr (snd kv)) # py_repr_pairs kvs"

definition py_str :: "json \<Rightarrow> string" where
  \<comment> \<open>\<open>str(v)\<close>, also what an f-string prints for \<open>{v}\<close>\<close>
  "py_str v = (case v of JStr s \<Rightarrow> s | _ \<Rightarrow> py_repr v)"

definition truthy :: "json \<Rightarrow> bool" where
  \<comment> \<open>\<open>bool(v)\<close>\<close>
  "truthy v =
     (case v of
        JNull \<Rightarrow> False
      | JBool b \<Rightarrow> b
      | JInt i \<Rightarrow> i \<noteq> 0
      | JFloat r \<Rightarrow> r \<noteq> ''0.0'' \<and> r \<noteq> ''-0.0''
      | JStr s \<Rightarrow> s \<noteq> []
      | JArr xs \<Rightarrow> xs \<noteq> []
      | JObj kvs \<Rightarrow> kvs \<noteq> [])"

definition type_name :: "json \<Rightarrow> string" where
  \<comment> \<open>\<open>type(v).__name__\<close>\<close>
  "type_name v =
     (case v of
        JNull \<Rightarrow> ''NoneType''
      | JBool _ \<Rightarrow> ''bool''
      | JInt _ \<Rightarrow> ''int''
      | JFloat _ \<Rightarrow> ''float''
      | JStr _ \<Rightarrow> ''str''
      | JArr _ \<Rightarrow> ''list''
      | JObj _ \<Rightarrow> ''dict'')"

section \<open>Configuration, the network and the trace of a run\<close>

record config =
  groups :: "string list"
  push_times :: "string list"
  news_api :: string
  format :: string
  moyu_format :: string
  moyu_api :: string
  enable_news :: bool
  enable_moyu :: bool
  enable_gold :: bool
  enable_ai :: bool
  gold_format :: string
  gold_api :: string
  ai_format :: string
  ai_api :: string
  api_key :: string
  timeout :: nat

text \<open>
  An exception is carried by the text \<open>str(e)\<close> gives, which is all the plugin reads of
  it. Everything outside the plugin is an input of the model. A response is what its
  methods give back: the status, \<open>await resp.json(content_type=None)\<close>, and
  \<open>await resp.read()\<close> both as raw bytes and as \<open>decode("utf-8", errors="ignore")\<close> reads
  them; \<open>Inl\<close> is the exception raised. One attempt of a fetch sees the answer to the GET of
  the API address, the answer to the GET of an image address, and the name (without its
  suffix) of the temporary file it creates and writes. Requests that run out of the
  configured timeout are among the GETs that raise.
\<close>

type_synonym exn = string

record response =
  r_status :: int
  r_json :: "exn + json"
  r_bytes :: "exn + string"
  r_text :: "exn + string"

record attempt_io =
  get_api :: "string \<Rightarrow> exn + response"
  get_image :: "string \<Rightarrow> exn + response"
  temp_file :: "exn + string"

datatype message = Image string | Text string

datatype event =
    Request string
  | ImageRequest string
  | WriteTemp string string
  | Sleep nat
  | LogError string
  | LogInfo string
  | Fetch
  | Send string message
  | Remove string

definition msg_status_code :: string where
  \<comment> \<open>the literal before the status in \<open>Exception(f"...{resp.status}")\<close> of the generic fetchers ("status code: "), as UTF-8\<close>
  "msg_status_code =
     [CHR 0xE7, CHR 0x8A, CHR 0xB6, CHR 0xE6, CHR 0x80, CHR 0x81, CHR 0xE7, CHR 0xA0, CHR 0x81] @ '': ''"

definition msg_no_image_url :: string where
  \<comment> \<open>the literal of \<open>Exception("JSON...URL")\<close> ("no image URL found in the JSON"), as UTF-8\<close>
  "msg_no_image_url =
     ''JSON'' @ [CHR 0xE6, CHR 0x9C, CHR 0xAA, CHR 0xE6, CHR 0x89, CHR 0xBE, CHR 0xE5, CHR 0x88, CHR 0xB0,
                 CHR 0xE5, CHR 0x9B, CHR 0xBE, CHR 0xE7, CHR 0x89, CHR 0x87] @ ''URL''"

definition msg_image_status_code :: string where
  \<comment> \<open>the literal before the status of the image response ("image status code: "), as UTF-8\<close>
  "msg_image_status_code =
     [CHR 0xE5, CHR 0x9B, CHR 0xBE, CHR 0xE7, CHR 0x89, CHR 0x87, CHR 0xE7, CHR 0x8A, CHR 0xB6,
      CHR 0xE6, CHR 0x80, CHR 0x81, CHR 0xE7, CHR 0xA0, CHR 0x81] @ '': ''"

definition msg_api_error :: string where
  \<comment> \<open>the prefix of the failure text of the generic fetchers ("API error: "), as UTF-8\<close>
  "msg_api_error =
     [CHR 0xE6, CHR 0x8E, CHR 0xA5, CHR 0xE5, CHR 0x8F, CHR 0xA3, CHR 0xE6, CHR 0x8A, CHR 0xA5,
      CHR 0xE9, CHR 0x94, CHR 0x99] @ '': ''"

definition msg_unknown_error :: string where
  \<comment> \<open>the text returned after the loop ("unknown error"), as UTF-8\<close>
  "msg_unknown_error =
     [CHR 0xE6, CHR 0x9C, CHR 0xAA, CHR 0xE7, CHR 0x9F, CHR 0xA5, CHR 0xE9, CHR 0x94, CHR 0x99,
      CHR 0xE8, CHR 0xAF, CHR 0xAF]"

definition msg_request_failed :: string where
  \<comment> \<open>the words "request failed" of the log lines, as UTF-8\<close>
  "msg_request_failed =
     [CHR 0xE8, CHR 0xAF, CHR 0xB7, CHR 0xE6, CHR 0xB1, CHR 0x82, CHR 0xE5, CHR 0xA4, CHR 0xB1,
      CHR 0xE8, CHR 0xB4, CHR 0xA5]"

definition tag_generic_text :: string where
  \<comment> \<open>the start of the log line of \<open>_generic_fetch_text\<close>: "[generic text] request failed "\<close>
  "tag_generic_text =
     ''['' @ [CHR 0xE9, CHR 0x80, CHR 0x9A, CHR 0xE7, CHR 0x94, CHR 0xA8, CHR 0xE6, CHR 0x96, CHR 0x87,
              CHR 0xE6, CHR 0x9C, CHR 0xAC] @ ''] '' @ msg_request_failed @ '' ''"

definition tag_generic_image :: string where
  \<comment> \<open>the start of the log line of \<open>_generic_fetch_image_path\<close>: "[generic image] request failed "\<close>
  "tag_generic_image =
     ''['' @ [CHR 0xE9, CHR 0x80, CHR 0x9A, CHR 0xE7, CHR 0x94, CHR 0xA8, CHR 0xE5, CHR 0x9B, CHR 0xBE,
              CHR 0xE7, CHR 0x89, CHR 0x87] @ ''] '' @ msg_request_failed @ '' ''"

definition tag_mnews :: string where
  \<comment> \<open>the start of the log line of \<open>_fetch_news_text\<close>\<close>
  "tag_mnews = ''[mnews] '' @ msg_request_failed @ '' ''"

definition msg_news_status :: string where
  \<comment> \<open>the literal before the status in \<open>_fetch_news_text\<close> ("API returned error code: "), as UTF-8\<close>
  "msg_news_status =
     ''API'' @ [CHR 0xE8, CHR 0xBF, CHR 0x94, CHR 0xE5, CHR 0x9B, CHR 0x9E, CHR 0xE9, CHR 0x94, CHR 0x99,
                CHR 0xE8, CHR 0xAF, CHR 0xAF, CHR 0xE4, CHR 0xBB, CHR 0xA3, CHR 0xE7, CHR 0xA0, CHR 0x81] @ '': ''"

definition msg_news_title :: string where
  \<comment> \<open>the rest of the title line after the date (" daily 60-second news"), as UTF-8\<close>
  "msg_news_title =
     '' '' @ [CHR 0xE6, CHR 0xAF, CHR 0x8F, CHR 0xE6, CHR 0x97, CHR 0xA5] @ ''60'' @
     [CHR 0xE7, CHR 0xA7, CHR 0x92, CHR 0xE6, CHR 0x96, CHR 0xB0, CHR 0xE9, CHR 0x97, CHR 0xBB]"

definition msg_bullet :: string where
  \<comment> \<open>the bullet and blank before each news item, as UTF-8\<close>
  "msg_bullet = [CHR 0xE2, CHR 0x80, CHR 0xA2] @ '' ''"

definition msg_tip :: string where
  \<comment> \<open>the literal before the tip ("tip:" with a full-width colon), as UTF-8\<close>
  "msg_tip = [CHR 0xE6, CHR 0x8F, CHR 0x90, CHR 0xE7, CHR 0xA4, CHR 0xBA, CHR 0xEF, CHR 0xBC, CHR 0x9A]"

definition msg_news_api_error :: string where
  \<comment> \<open>the prefix of the failure text of the news fetchers ("API error, please contact the administrator:"), as UTF-8\<close>
  "msg_news_api_error =
     [CHR 0xE6, CHR 0x8E, CHR 0xA5, CHR 0xE5, CHR 0x8F, CHR 0xA3, CHR 0xE6, CHR 0x8A, CHR 0xA5,
      CHR 0xE9, CHR 0x94, CHR 0x99, CHR 0xEF, CHR 0xBC, CHR 0x8C, CHR 0xE8, CHR 0xAF, CHR 0xB7,
      CHR 0xE8, CHR 0x81, CHR 0x94, CHR 0xE7, CHR 0xB3, CHR 0xBB, CHR 0xE7, CHR 0xAE, CHR 0xA1,
      CHR 0xE7, CHR 0x90, CHR 0x86, CHR 0xE5, CHR 0x91, CHR 0x98] @ '':''"

definition msg_push_failed :: string where
  \<comment> \<open>the start of the log line of \<open>_send_to_groups\<close> ("[push] failed: "), as UTF-8\<close>
  "msg_push_failed =
     ''['' @ [CHR 0xE6, CHR 0x8E, CHR 0xA8, CHR 0xE9, CHR 0x80, CHR 0x81] @ ''] '' @
     [CHR 0xE5, CHR 0xA4, CHR 0xB1, CHR 0xE8, CHR 0xB4, CHR 0xA5] @ '': ''"

definition msg_ai_weekend :: string where
  \<comment> \<open>the info line of the skipped AI push ("[AI news] not pushed at the weekend"), as UTF-8\<close>
  "msg_ai_weekend =
     ''[AI'' @ [CHR 0xE8, CHR 0xB5, CHR 0x84, CHR 0xE8, CHR 0xAE, CHR 0xAF] @ ''] '' @
     [CHR 0xE5, CHR 0x91, CHR 0xA8, CHR 0xE6, CHR 0x9C, CHR 0xAB, CHR 0xE4, CHR 0xB8, CHR 0x8D,
      CHR 0xE6, CHR 0x8E, CHR 0xA8, CHR 0xE9, CHR 0x80, CHR 0x81]"

section \<open>The payload fetchers\<close>

definition retries :: nat where
  "retries = 3"

definition with_api_key :: "config \<Rightarrow> string \<Rightarrow> string" where
  \<comment> \<open>\<open>if self.api_key: url += f"&apikey={self.api_key}"\<close>\<close>
  "with_api_key cfg url = (if api_key cfg \<noteq> [] then url @ ''&apikey='' @ api_key cfg else url)"

text \<open>
  The loop \<open>for attempt in range(retries)\<close> with its \<open>try\<close> and \<open>except Exception\<close>, which the
  fetchers share but for the tag of the log line and the prefix of the failure text.
  \<open>body attempt\<close> is the \<open>try\<close> block of that attempt: the value it returns or the
  exception it raises, and what it did. The loop runs over the list \<open>range(retries)\<close>.
\<close>

definition retry_log_line :: "string \<Rightarrow> nat \<Rightarrow> exn \<Rightarrow> string" where
  \<comment> \<open>\<open>f"{tag}{attempt + 1}/{retries}: {e}"\<close>\<close>
  "retry_log_line tag attempt e =
     tag @ int_str (int attempt + 1) @ ''/'' @ int_str (int retries) @ '': '' @ e"

fun retry_over ::
  "string \<Rightarrow> string \<Rightarrow> (nat \<Rightarrow> (exn + string) \<times> event list) \<Rightarrow> nat list
     \<Rightarrow> (string \<times> bool) \<times> event list"
where
  "retry_over tag failed body [] = ((msg_unknown_error, False), [])"
| "retry_over tag failed body (attempt # rest) =
     (case body attempt of
        (Inr payload, evs) \<Rightarrow> ((payload, True), evs)
      | (Inl e, evs) \<Rightarrow>
          (let logged = evs @ [LogError (retry_log_line tag attempt e)]
           in if attempt = retries - 1 then ((failed @ e, False), logged)
              else (fst (retry_over tag failed body rest),
                    logged @ [Sleep 1] @ snd (retry_over tag failed body rest))))"

definition generic_text_url :: "config \<Rightarrow> string \<Rightarrow> string \<Rightarrow> string" where
  \<comment> \<open>\<open>f"{api_url}?format={'json' if use_json else 'text'}"\<close> with \<open>use_json = fmt == "image"\<close>\<close>
  "generic_text_url cfg api_url fmt =
     with_api_key cfg (api_url @ ''?format='' @ (if fmt = ''image'' then ''json'' else ''text''))"

definition generic_image_url :: "config \<Rightarrow> string \<Rightarrow> string \<Rightarrow> string" where
  \<comment> \<open>\<open>f"{api_url}?format={'json' if use_json else 'image'}"\<close> with \<open>use_json = fmt == "text"\<close>\<close>
  "generic_image_url cfg api_url fmt =
     with_api_key cfg (api_url @ ''?format='' @ (if fmt = ''text'' then ''json'' else ''image''))"

definition news_text_url :: "config \<Rightarrow> string \<Rightarrow> string" where
  \<comment> \<open>\<open>f"{self.news_api}?date={date}&format={fmt}"\<close> with \<open>fmt\<close> json when the format is image\<close>
  "news_text_url cfg date =
     with_api_key cfg (news_api cfg @ ''?date='' @ date @ ''&format=''
                       @ (if format cfg = ''image'' then ''json'' else ''text''))"

definition generic_text_attempt ::
  "config \<Rightarrow> string \<Rightarrow> string \<Rightarrow> attempt_io \<Rightarrow> (exn + string) \<times> event list" where
  \<comment> \<open>the \<open>try\<close> block of \<open>_generic_fetch_text\<close>\<close>
  "generic_text_attempt cfg api_url fmt io =
     (let use_json = (fmt = ''image'');
          url = generic_text_url cfg api_url fmt
      in (case get_api io url of
            Inl e \<Rightarrow> Inl e
          | Inr resp \<Rightarrow>
              if r_status resp \<noteq> 200 then Inl (msg_status_code @ int_str (r_status resp))
              else if use_json then
                (case r_json resp of
                   Inl e \<Rightarrow> Inl e
                 | Inr data \<Rightarrow>
                     (case extract_first_string data of
                        Some txt \<Rightarrow> if txt \<noteq> [] then Inr txt else Inr (py_str data)
                      | None \<Rightarrow> Inr (py_str data)))
              else r_text resp,
          [Request url]))"

definition generic_fetch_text ::
  "config \<Rightarrow> (nat \<Rightarrow> attempt_io) \<Rightarrow> string \<Rightarrow> string \<Rightarrow> (string \<times> bool) \<times> event list" where
  "generic_fetch_text cfg net api_url fmt =
     retry_over tag_generic_text msg_api_error
       (\<lambda>attempt. generic_text_attempt cfg api_url fmt (net attempt)) [0..<retries]"

definition write_temp :: "attempt_io \<Rightarrow> string \<Rightarrow> event list \<Rightarrow> (exn + string) \<times> event list" where
  \<comment> \<open>\<open>f = tempfile.NamedTemporaryFile(delete=False, suffix=".jpeg")\<close>, written, flushed and
      closed; \<open>return f.name\<close>\<close>
  "write_temp io b evs =
     (case temp_file io of
        Inl e \<Rightarrow> (Inl e, evs)
      | Inr stem \<Rightarrow> (Inr (stem @ ''.jpeg''), evs @ [WriteTemp (stem @ ''.jpeg'') b]))"

definition generic_image_attempt ::
  "config \<Rightarrow> string \<Rightarrow> string \<Rightarrow> attempt_io \<Rightarrow> (exn + string) \<times> event list" where
  \<comment> \<open>the \<open>try\<close> block of \<open>_generic_fetch_image_path\<close>\<close>
  "generic_image_attempt cfg api_url fmt io =
     (let use_json = (fmt = ''text'');
          url = generic_image_url cfg api_url fmt
      in (case get_api io url of
            Inl e \<Rightarrow> (Inl e, [Request url])
          | Inr resp \<Rightarrow>
              if r_status resp \<noteq> 200
              then (Inl (msg_status_code @ int_str (r_status resp)), [Request url])
              else if use_json then
                (case r_json resp of
                   Inl e \<Rightarrow> (Inl e, [Request url])
                 | Inr data \<Rightarrow>
                     (case extract_first_image_url data of
                        None \<Rightarrow> (Inl msg_no_image_url, [Request url])
                      | Some img_url \<Rightarrow>
                          if img_url = [] then (Inl msg_no_image_url, [Request url])
                          else
                            (case get_image io img_url of
                               Inl e \<Rightarrow> (Inl e, [Request url, ImageRequest img_url])
                             | Inr ir \<Rightarrow>
                                 if r_status ir \<noteq> 200
                                 then (Inl (msg_image_status_code @ int_str (r_status ir)),
                                       [Request url, ImageRequest img_url])
                                 else
                                   (case r_bytes ir of
                                      Inl e \<Rightarrow> (Inl e, [Request url, ImageRequest img_url])
                                    | Inr b \<Rightarrow> write_temp io b [Request url, ImageRequest img_url]))))
              else
                (case r_bytes resp of
                   Inl e \<Rightarrow> (Inl e, [Request url])
                 | Inr b \<Rightarrow> write_temp io b [Request url])))"

definition generic_fetch_image_path ::
  "config \<Rightarrow> (nat \<Rightarrow> attempt_io) \<Rightarrow> string \<Rightarrow> string \<Rightarrow> (string \<times> bool) \<times> event list" where
  "generic_fetch_image_path cfg net api_url fmt =
     retry_over tag_generic_image msg_api_error
       (\<lambda>attempt. generic_image_attempt cfg api_url fmt (net attempt)) [0..<retries]"

definition moyu_fetch_text :: "config \<Rightarrow> (nat \<Rightarrow> attempt_io) \<Rightarrow> (string \<times> bool) \<times> event list" where
  "moyu_fetch_text cfg net = generic_fetch_text cfg net (moyu_api cfg) (moyu_format cfg)"

definition moyu_fetch_image_path :: "config \<Rightarrow> (nat \<Rightarrow> attempt_io) \<Rightarrow> (string \<times> bool) \<times> event list" where
  "moyu_fetch_image_path cfg net = generic_fetch_image_path cfg net (moyu_api cfg) (moyu_format cfg)"

definition gold_fetch_text :: "config \<Rightarrow> (nat \<Rightarrow> attempt_io) \<Rightarrow> (string \<times> bool) \<times> event list" where
  "gold_fetch_text cfg net = generic_fetch_text cfg net (gold_api cfg) (gold_format cfg)"

definition gold_fetch_image_path :: "config \<Rightarrow> (nat \<Rightarrow> attempt_io) \<Rightarrow> (string \<times> bool) \<times> event list" where
  "gold_fetch_image_path cfg net = generic_fetch_image_path cfg net (gold_api cfg) (gold_format cfg)"

definition ai_fetch_text :: "config \<Rightarrow> (nat \<Rightarrow> attempt_io) \<Rightarrow> (string \<times> bool) \<times> event list" where
  "ai_fetch_text cfg net = generic_fetch_text cfg net (ai_api cfg) (ai_format cfg)"

definition ai_fetch_image_path :: "config \<Rightarrow> (nat \<Rightarrow> attempt_io) \<Rightarrow> (string \<times> bool) \<times> event list" where
  "ai_fetch_image_path cfg net = generic_fetch_image_path cfg net (ai_api cfg) (ai_format cfg)"

definition dict_get :: "json \<Rightarrow> string \<Rightarrow> exn + json option" where
  \<comment> \<open>\<open>v.get(key)\<close>: \<open>AttributeError\<close> unless \<open>v\<close> is a dict\<close>
  "dict_get v key =
     (case v of
        JObj kvs \<Rightarrow> Inr (map_of kvs key)
      | _ \<Rightarrow> Inl (CHR 0x27 # type_name v @ [CHR 0x27] @ '' object has no attribute ''
                   @ [CHR 0x27] @ ''get'' @ [CHR 0x27]))"

definition or_else :: "json option \<Rightarrow> json \<Rightarrow> json" where
  \<comment> \<open>\<open>payload.get(key) or default\<close>\<close>
  "or_else got dflt =
     (case got of None \<Rightarrow> dflt | Some v \<Rightarrow> if truthy v then v else dflt)"

definition py_iter :: "json \<Rightarrow> exn + json list" where
  \<comment> \<open>what a \<open>for\<close> over the value yields: a list's items, a dict's keys, a string's characters\<close>
  "py_iter v =
     (case v of
        JArr xs \<Rightarrow> Inr xs
      | JObj kvs \<Rightarrow> Inr (map (\<lambda>kv. JStr (fst kv)) kvs)
      | JStr s \<Rightarrow> Inr (map (\<lambda>c. JStr [c]) s)
      | _ \<Rightarrow> Inl (CHR 0x27 # type_name v @ [CHR 0x27] @ '' object is not iterable''))"

definition news_text_of :: "string \<Rightarrow> json \<Rightarrow> exn + string" where
  \<comment> \<open>the \<open>fmt == "json"\<close> branch of \<open>_fetch_news_text\<close>, from the parsed document\<close>
  "news_text_of date data =
     (case dict_get data ''data'' of
        Inl e \<Rightarrow> Inl e
      | Inr got \<Rightarrow>
          (let payload = (case got of None \<Rightarrow> JObj [] | Some v \<Rightarrow> v)
           in case dict_get payload ''date'' of
                Inl e \<Rightarrow> Inl e
              | Inr d \<Rightarrow>
                  (case dict_get payload ''tip'' of
                     Inl e \<Rightarrow> Inl e
                   | Inr t \<Rightarrow>
                       (case dict_get payload ''news'' of
                          Inl e \<Rightarrow> Inl e
                        | Inr n \<Rightarrow>
                            (let date_str = or_else d (JStr date);
                                 tip = or_else t (JStr []);
                                 news_list = or_else n (JArr [])
                             in case py_iter news_list of
                                  Inl e \<Rightarrow> Inl e
                                | Inr items \<Rightarrow>
                                    (let lines = (py_str date_str @ msg_news_title)
                                                 # map (\<lambda>item. msg_bullet @ py_str item) items;
                                         lines = (if truthy tip then lines @ [msg_tip @ py_str tip]
                                                  else lines)
                                     in Inr (join [CHR 0x0A] lines)))))))"

definition news_text_attempt ::
  "config \<Rightarrow> string \<Rightarrow> attempt_io \<Rightarrow> (exn + string) \<times> event list" where
  \<comment> \<open>the \<open>try\<close> block of \<open>_fetch_news_text\<close>; \<open>date\<close> is today as \<open>%Y-%m-%d\<close>\<close>
  "news_text_attempt cfg date io =
     (let fmt = (if format cfg = ''image'' then ''json'' else ''text'');
          url = news_text_url cfg date
      in (case get_api io url of
            Inl e \<Rightarrow> Inl e
          | Inr resp \<Rightarrow>
              if r_status resp \<noteq> 200 then Inl (msg_news_status @ int_str (r_status resp))
              else if fmt = ''json'' then
                (case r_json resp of
                   Inl e \<Rightarrow> Inl e
                 | Inr data \<Rightarrow> news_text_of date data)
              else r_text resp,
          [Request url]))"

definition fetch_news_text ::
  "config \<Rightarrow> (nat \<Rightarrow> attempt_io) \<Rightarrow> string \<Rightarrow> (string \<times> bool) \<times> event list" where
  "fetch_news_text cfg net date =
     retry_over tag_mnews msg_news_api_error
       (\<lambda>attempt. news_text_attempt cfg date (net attempt)) [0..<retries]"

text \<open>
  What the endpoint answered in one attempt: status 200 with this parsed JSON document,
  or status 200 with this decoded body.
\<close>

definition json_answer :: "attempt_io \<Rightarrow> string \<Rightarrow> json \<Rightarrow> bool" where
  "json_answer io url data =
     (case get_api io url of
        Inl _ \<Rightarrow> False
      | Inr resp \<Rightarrow> r_status resp = 200 \<and> r_json resp = Inr data)"

definition text_answer :: "attempt_io \<Rightarrow> string \<Rightarrow> string \<Rightarrow> bool" where
  "text_answer io url body =
     (case get_api io url of
        Inl _ \<Rightarrow> False
      | Inr resp \<Rightarrow> r_status resp = 200 \<and> r_text resp = Inr body)"

definition is_request :: "event \<Rightarrow> bool" where
  "is_request ev = (case ev of Request _ \<Rightarrow> True | _ \<Rightarrow> False)"

definition is_sleep :: "event \<Rightarrow> bool" where
  "is_sleep ev = (case ev of Sleep _ \<Rightarrow> True | _ \<Rightarrow> False)"

text \<open>
  The events of the first \<open>k\<close> attempts when each of them failed: what the attempt did,
  its log line, and one wait of one second.
\<close>

definition failed_attempts ::
  "string \<Rightarrow> (nat \<Rightarrow> (exn + string) \<times> event list) \<Rightarrow> nat \<Rightarrow> event list" where
  "failed_attempts tag body k =
     concat (map (\<lambda>j. snd (body j) @ [LogError (retry_log_line tag j (projl (fst (body j)))), Sleep 1])
                 [0..<k])"

text \<open>
  The retry contract of the specification for a fetcher with result \<open>r\<close> whose attempts are
  \<open>body 0\<close>, \<open>body 1\<close>, ...: the first attempt that succeeds ends the fetch with its payload,
  after one wait of one second for each failed attempt before it and nothing after it;
  when all \<open>retries\<close> attempts fail the result is the failure text with the last error,
  after \<open>retries\<close> requests and \<open>retries - 1\<close> waits.
\<close>

definition retry_contract ::
  "string \<Rightarrow> string \<Rightarrow> (nat \<Rightarrow> (exn + string) \<times> event list)
     \<Rightarrow> (string \<times> bool) \<times> event list \<Rightarrow> bool" where
  "retry_contract tag failed body r =
     ((\<forall>k<retries. \<forall>payload.
         (\<forall>j<k. isl (fst (body j))) \<and> fst (body k) = Inr payload \<longrightarrow>
           fst r = (payload, True)
           \<and> snd r = failed_attempts tag body k @ snd (body k)
           \<and> length (filter is_request (snd r)) = k + 1
           \<and> filter is_sleep (snd r) = replicate k (Sleep 1))
      \<and> ((\<forall>j<retries. isl (fst (body j))) \<longrightarrow>
           fst r = (failed @ projl (fst (body (retries - 1))), False)
           \<and> snd r = failed_attempts tag body (retries - 1) @ snd (body (retries - 1))
                       @ [LogError (retry_log_line tag (retries - 1) (projl (fst (body (retries - 1)))))]
           \<and> length (filter is_request (snd r)) = retries
           \<and> filter is_sleep (snd r) = replicate (retries - 1) (Sleep 1)))"

text \<open>A configuration and two networks to run the fetchers on.\<close>

definition example_config :: config where
  "example_config =
     \<lparr>groups = [''g1'', ''g2'', ''g3''], push_times = [''08:00'', ''18:00''],
      news_api = ''https://api.test/60s'', format = ''text'',
      moyu_format = ''image'', moyu_api = ''https://api.test/moyu'',
      enable_news = True, enable_moyu = True, enable_gold = True, enable_ai = True,
      gold_format = ''image'', gold_api = ''https://api.test/gold'',
      ai_format = ''text'', ai_api = ''https://api.test/ai'',
      api_key = [], timeout = 30\<rparr>"

definition ok_response :: "exn + json \<Rightarrow> string \<Rightarrow> response" where
  \<comment> \<open>status 200 with this body\<close>
  "ok_response parsed body = \<lparr>r_status = 200, r_json = parsed, r_bytes = Inr body, r_text = Inr body\<rparr>"

definition flaky_net :: "nat \<Rightarrow> attempt_io" where
  \<comment> \<open>the first request times out, the second is answered 500, the third 200 with \<open>hello\<close>\<close>
  "flaky_net attempt =
     \<lparr>get_api = (\<lambda>url. if attempt = 0 then Inl ''timed out''
                       else if attempt = 1
                       then Inr \<lparr>r_status = 500, r_json = Inl ''no JSON'', r_bytes = Inr [], r_text = Inr []\<rparr>
                       else Inr (ok_response (Inl ''no JSON'') ''hello'')),
      get_image = (\<lambda>url. Inl ''unreachable''),
      temp_file = Inr ''/tmp/tmpab12''\<rparr>"

definition dead_net :: "nat \<Rightarrow> attempt_io" where
  \<comment> \<open>every request times out\<close>
  "dead_net attempt =
     \<lparr>get_api = (\<lambda>url. Inl ''timed out''), get_image = (\<lambda>url. Inl ''timed out''),
      temp_file = Inr ''/tmp/tmpab12''\<rparr>"

definition json_net :: "json \<Rightarrow> nat \<Rightarrow> attempt_io" where
  \<comment> \<open>every request is answered 200 with this JSON document\<close>
  "json_net data attempt =
     \<lparr>get_api = (\<lambda>url. Inr (ok_response (Inr data) [])), get_image = (\<lambda>url. Inl ''unreachable''),
      temp_file = Inr ''/tmp/tmpab12''\<rparr>"

definition empty_body_net :: "nat \<Rightarrow> attempt_io" where
  \<comment> \<open>every request is answered 200 with an empty body\<close>
  "empty_body_net attempt =
     \<lparr>get_api = (\<lambda>url. Inr (ok_response (Inl ''Expecting value'') [])),
      get_image = (\<lambda>url. Inl ''unreachable''),
      temp_file = Inr ''/tmp/tmpab12''\<rparr>"

section \<open>Fan-out to the groups and the push of one firing\<close>

text \<open>
  \<open>_send_to_groups(fetch_func, is_image)\<close>. Its inputs from outside are what awaiting
  \<open>fetch_func()\<close> gives (the pair it returns, or the exception it raises) and what each
  call of \<open>context.send_message\<close> does: \<open>sends i\<close> is \<open>None\<close> when the call for the group
  at position \<open>i\<close> returns and \<open>Some e\<close> when it raises \<open>e\<close>. A \<open>Send\<close> event is a call that
  was made, whether it returned or raised; \<open>Remove\<close> is the call of \<open>os.remove\<close>, whose own
  failure the code passes over.
\<close>

fun send_each :: "(nat \<Rightarrow> exn option) \<Rightarrow> message \<Rightarrow> nat \<Rightarrow> string list \<Rightarrow> event list \<times> exn option" where
  \<comment> \<open>\<open>for target in self.groups: await send_message(target, chain); await asyncio.sleep(2)\<close>\<close>
  "send_each sends msg i [] = ([], None)"
| "send_each sends msg i (target # rest) =
     (case sends i of
        Some e \<Rightarrow> ([Send target msg], Some e)
      | None \<Rightarrow>
          (Send target msg # Sleep 2 # fst (send_each sends msg (Suc i) rest),
           snd (send_each sends msg (Suc i) rest)))"

definition send_body ::
  "exn + (string \<times> bool) \<Rightarrow> bool \<Rightarrow> string list \<Rightarrow> (nat \<Rightarrow> exn option) \<Rightarrow> event list \<times> exn option" where
  \<comment> \<open>the \<open>try\<close> block: what it did, and the exception that left it, if any\<close>
  "send_body fetched is_image targets sends =
     (case fetched of
        Inl e \<Rightarrow> ([Fetch], Some e)
      | Inr (payload, ok) \<Rightarrow>
          if \<not> ok then ([Fetch], Some payload)
          else if is_image then
            (case send_each sends (Image payload) 0 targets of
               (evs, Some e) \<Rightarrow> (Fetch # evs, Some e)
             | (evs, None) \<Rightarrow> (Fetch # evs @ [Remove payload], None))
          else
            (case send_each sends (Text payload) 0 targets of
               (evs, r) \<Rightarrow> (Fetch # evs, r)))"

definition send_to_groups ::
  "exn + (string \<times> bool) \<Rightarrow> bool \<Rightarrow> string list \<Rightarrow> (nat \<Rightarrow> exn option) \<Rightarrow> event list" where
  \<comment> \<open>with \<open>except Exception as e: logger.error(...)\<close>: nothing is raised to the caller\<close>
  "send_to_groups fetched is_image targets sends =
     (case send_body fetched is_image targets sends of
        (evs, Some e) \<Rightarrow> evs @ [LogError (msg_push_failed @ e)]
      | (evs, None) \<Rightarrow> evs)"

text \<open>
  The four pushes of one firing in \<open>_daily_task\<close>, after the sleep. Each source passes
  one of its two fetchers to \<open>_send_to_groups\<close>; \<open>fetched src f\<close> is what awaiting fetcher
  \<open>f\<close> gives at that moment and \<open>sends src\<close> what the sends of that source do. \<open>weekday\<close> is
  \<open>datetime.datetime.now().weekday()\<close> as read before the last push: 0 is Monday, 5
  Saturday, 6 Sunday. The trace pairs each event with the source it belongs to.
\<close>

datatype source = News | Moyu | Gold | Ai

datatype fetcher = FetchImagePath | FetchText

definition push_source ::
  "config \<Rightarrow> (source \<Rightarrow> fetcher \<Rightarrow> exn + (string \<times> bool)) \<Rightarrow> (source \<Rightarrow> nat \<Rightarrow> exn option)
     \<Rightarrow> source \<Rightarrow> string \<Rightarrow> (source \<times> event) list" where
  \<comment> \<open>\<open>await self._send_to_groups(image_fetcher if fmt == "image" else text_fetcher, fmt == "image")\<close>\<close>
  "push_source cfg fetched sends src fmt =
     map (Pair src)
       (send_to_groups (fetched src (if fmt = ''image'' then FetchImagePath else FetchText))
          (fmt = ''image'') (groups cfg) (sends src))"

definition first_pushes ::
  "config \<Rightarrow> (source \<Rightarrow> fetcher \<Rightarrow> exn + (string \<times> bool)) \<Rightarrow> (source \<Rightarrow> nat \<Rightarrow> exn option)
     \<Rightarrow> (source \<times> event) list" where
  \<comment> \<open>the news, calendar and gold pushes, which come before the weekday is read\<close>
  "first_pushes cfg fetched sends =
     (if enable_news cfg then push_source cfg fetched sends News (format cfg) else [])
     @ (if enable_moyu cfg then push_source cfg fetched sends Moyu (moyu_format cfg) else [])
     @ (if enable_gold cfg then push_source cfg fetched sends Gold (gold_format cfg) else [])"

definition push_enabled ::
  "config \<Rightarrow> nat \<Rightarrow> (source \<Rightarrow> fetcher \<Rightarrow> exn + (string \<times> bool)) \<Rightarrow> (source \<Rightarrow> nat \<Rightarrow> exn option)
     \<Rightarrow> (source \<times> event) list" where
  "push_enabled cfg weekday fetched sends =
     first_pushes cfg fetched sends
     @ (if enable_ai cfg
        then (if weekday \<noteq> 5 \<and> weekday \<noteq> 6
              then push_source cfg fetched sends Ai (ai_format cfg)
              else [(Ai, LogInfo msg_ai_weekend)])
        else [])"

text \<open>
  The weekday of the AI step is read from the clock when that step is reached, after the
  first three pushes have been awaited. \<open>fired\<close> is what the clock reads when the sleep
  until the push time ends and the pushes start. The pushes take at least their pauses
  (\<open>asyncio.sleep(2)\<close> after every send that returned); \<open>delay\<close> is the time they take
  beyond the pauses (the fetches with their requests and waits, the sends), in
  microseconds. The clock is taken to run steadily between the two readings.
\<close>

definition weekday_of :: "datetime \<Rightarrow> nat" where
  \<comment> \<open>\<open>d.weekday()\<close>: 0 is Monday; the day of ordinal 1 is a Monday\<close>
  "weekday_of d = (day d + 6) mod 7"

definition microseconds_of_day :: "datetime \<Rightarrow> nat" where
  "microseconds_of_day d = ((hour d * 60 + minute d) * 60 + second d) * 1000000 + microsecond d"

definition clock_after :: "datetime \<Rightarrow> nat \<Rightarrow> datetime" where
  \<comment> \<open>what the clock reads \<open>n\<close> microseconds after it read \<open>d\<close>\<close>
  "clock_after d n =
     (let us = microseconds_of_day d + n
      in \<lparr>day = day d + us div 86400000000,
          hour = us mod 86400000000 div 3600000000,
          minute = us mod 3600000000 div 60000000,
          second = us mod 60000000 div 1000000,
          microsecond = us mod 1000000\<rparr>)"

fun slept :: "event list \<Rightarrow> nat" where
  \<comment> \<open>the seconds of the pauses in a trace\<close>
  "slept [] = 0"
| "slept (ev # evs) = (case ev of Sleep n \<Rightarrow> n + slept evs | _ \<Rightarrow> slept evs)"

definition elapsed_before_ai ::
  "config \<Rightarrow> nat \<Rightarrow> (source \<Rightarrow> fetcher \<Rightarrow> exn + (string \<times> bool)) \<Rightarrow> (source \<Rightarrow> nat \<Rightarrow> exn option)
     \<Rightarrow> nat" where
  \<comment> \<open>microseconds from the start of the pushes to the reading of the weekday\<close>
  "elapsed_before_ai cfg delay fetched sends =
     1000000 * slept (map snd (first_pushes cfg fetched sends)) + delay"

definition ai_clock ::
  "config \<Rightarrow> datetime \<Rightarrow> nat \<Rightarrow> (source \<Rightarrow> fetcher \<Rightarrow> exn + (string \<times> bool))
     \<Rightarrow> (source \<Rightarrow> nat \<Rightarrow> exn option) \<Rightarrow> datetime" where
  \<comment> \<open>\<open>datetime.datetime.now()\<close> of line 438\<close>
  "ai_clock cfg fired delay fetched sends =
     clock_after fired (elapsed_before_ai cfg delay fetched sends)"

definition daily_push ::
  "config \<Rightarrow> datetime \<Rightarrow> nat \<Rightarrow> (source \<Rightarrow> fetcher \<Rightarrow> exn + (string \<times> bool))
     \<Rightarrow> (source \<Rightarrow> nat \<Rightarrow> exn option) \<Rightarrow> (source \<times> event) list" where
  \<comment> \<open>the pushes of the firing that starts when the clock reads \<open>fired\<close>\<close>
  "daily_push cfg fired delay fetched sends =
     push_enabled cfg (weekday_of (ai_clock cfg fired delay fetched sends)) fetched sends"

definition late_config :: config where
  \<comment> \<open>ten groups and a push time one minute before midnight\<close>
  "late_config =
     example_config\<lparr>groups := [''g0'', ''g1'', ''g2'', ''g3'', ''g4'', ''g5'', ''g6'', ''g7'', ''g8'', ''g9''],
                    push_times := [''23:59'']\<rparr>"

definition example_fetched :: "source \<Rightarrow> fetcher \<Rightarrow> exn + (string \<times> bool)" where
  \<comment> \<open>every fetch succeeds\<close>
  "example_fetched src f =
     (case f of
        FetchImagePath \<Rightarrow> Inr (''/tmp/tmpab12.jpeg'', True)
      | FetchText \<Rightarrow> Inr (''hello'', True))"

definition events_of :: "source \<Rightarrow> (source \<times> event) list \<Rightarrow> event list" where
  "events_of src trace = map snd (filter (\<lambda>se. fst se = src) trace)"

definition is_send :: "event \<Rightarrow> bool" where
  "is_send ev = (case ev of Send _ _ \<Rightarrow> True | _ \<Rightarrow> False)"

definition is_remove :: "event \<Rightarrow> bool" where
  "is_remove ev = (case ev of Remove _ \<Rightarrow> True | _ \<Rightarrow> False)"

definition is_log_error :: "event \<Rightarrow> bool" where
  "is_log_error ev = (case ev of LogError _ \<Rightarrow> True | _ \<Rightarrow> False)"

section \<open>Properties of the schedule clock\<close>

lemma parse_time_range:
  "parse_time s = Inr t \<Longrightarrow> t_hour t < 24 \<and> t_minute t < 60"
  by (auto simp: parse_time_def split: list.splits option.splits if_splits)

lemma parse_time_error: "parse_time s = Inl e \<Longrightarrow> e = ValueError \<or> e = OverflowError"
  by (cases e) simp_all

lemma replace_time:
  "now\<lparr>hour := h, minute := m, second := 0, microsecond := 0\<rparr> =
   \<lparr>day = day now, hour = h, minute = m, second = 0, microsecond = 0\<rparr>"
  by (cases now) simp

lemma push_candidate_invalid:
  "parse_time s = Inl e \<Longrightarrow> push_candidate now s = Inl e"
  by (simp add: push_candidate_def)

lemma push_candidate_valid:
  "parse_time s = Inr t \<Longrightarrow> day now < MAX_ORDINAL \<Longrightarrow>
   push_candidate now s = Inr (next_occurrence now t)"
  by (simp add: push_candidate_def next_occurrence_def today_at_def add_one_day_def replace_time)

lemma push_candidates_fst_Cons:
  "fst (push_candidates now (s # pts)) =
     (case push_candidate now s of
        Inl e \<Rightarrow> fst (push_candidates now pts)
      | Inr c \<Rightarrow> c # fst (push_candidates now pts))"
  by (cases "push_candidates now pts"; cases "push_candidate now s") simp_all

lemma push_candidates_snd_Cons:
  "snd (push_candidates now (s # pts)) =
     (case push_candidate now s of
        Inl e \<Rightarrow> (s, e) # snd (push_candidates now pts)
      | Inr c \<Rightarrow> snd (push_candidates now pts))"
  by (cases "push_candidates now pts"; cases "push_candidate now s") simp_all

lemma get_next_push_time_fst:
  "fst (get_next_push_time now pts) =
     (case fst (push_candidates now pts) of [] \<Rightarrow> Inl ValueError | c # cs \<Rightarrow> Inr (py_min c cs))"
  by (cases "push_candidates now pts") (simp add: get_next_push_time_def)

lemma get_next_push_time_snd:
  "snd (get_next_push_time now pts) = snd (push_candidates now pts)"
  by (cases "push_candidates now pts") (simp add: get_next_push_time_def)

lemma push_candidates_fst:
  "day now < MAX_ORDINAL \<Longrightarrow>
   fst (push_candidates now pts) = map (next_occurrence now) (valid_times pts)"
proof (induction pts)
  case Nil
  show ?case by (simp add: valid_times_def)
next
  case (Cons s pts)
  show ?case
  proof (cases "parse_time s")
    case (Inl e)
    with Cons show ?thesis
      by (simp add: valid_times_def push_candidate_invalid push_candidates_fst_Cons
            del: push_candidates.simps)
  next
    case (Inr t)
    with Cons show ?thesis
      by (simp add: valid_times_def push_candidate_valid push_candidates_fst_Cons
            del: push_candidates.simps)
  qed
qed

lemma dt_le_refl: "dt_le a a"
  by (simp add: dt_le_def)

lemma dt_le_trans: "dt_le a b \<Longrightarrow> dt_le b c \<Longrightarrow> dt_le a c"
  unfolding dt_le_def by (rule order_trans)

lemma dt_not_less: "\<not> dt_less a b \<longleftrightarrow> dt_le b a"
  unfolding dt_le_def dt_less_def by (rule not_less)

lemma dt_less_le: "dt_less a b \<Longrightarrow> dt_le a b"
  unfolding dt_le_def dt_less_def by (rule less_imp_le)

lemma py_min_mem: "py_min b cs \<in> set (b # cs)"
  by (induction cs arbitrary: b) auto

lemma py_min_le_best: "dt_le (py_min b cs) b"
proof (induction cs arbitrary: b)
  case Nil
  show ?case by (simp add: dt_le_refl)
next
  case (Cons c cs)
  show ?case
    using Cons[of c] Cons[of b] by (auto intro: dt_le_trans dt_less_le)
qed

lemma py_min_le: "x \<in> set cs \<Longrightarrow> dt_le (py_min b cs) x"
proof (induction cs arbitrary: b)
  case Nil
  then show ?case by simp
next
  case (Cons c cs)
  show ?case
  proof (cases "x = c")
    case True
    show ?thesis
    proof (cases "dt_less c b")
      case less: True
      then show ?thesis using True py_min_le_best[of c cs] by simp
    next
      case False
      then have "dt_le b c" by (simp add: dt_not_less)
      with False show ?thesis
        using True py_min_le_best[of b cs] by (auto intro: dt_le_trans)
    qed
  next
    case False
    with Cons.prems have "x \<in> set cs" by simp
    then show ?thesis using Cons.IH by simp
  qed
qed

lemma next_occurrence_after: "dt_less now (next_occurrence now t)"
  by (auto simp: next_occurrence_def dt_less_def dt_le_def dt_key_def today_at_def)

lemma valid_times_set:
  "t \<in> set (valid_times pts) \<longleftrightarrow> (\<exists>s\<in>set pts. parse_time s = Inr t)"
  by (induction pts) (auto simp: valid_times_def split: sum.splits)

lemmas schedule_eval =
  get_next_push_time_def push_candidate_def add_one_day_def MAX_ORDINAL_def dt_le_def
  dt_less_def dt_key_def parse_time_def fits_c_int_def py_int_def py_strip_def is_space_def
  is_c_space_def is_digit_def digit_val_def

text \<open>
  Claim C1, as the code has it. For every list of configured strings of which at least
  one parses as a time, and every \<open>now\<close> that is not on the last day a \<open>datetime\<close> can hold
  (9999-12-31), \<open>_get_next_push_time\<close> returns an instant \<open>c\<close> that is strictly after
  \<open>now\<close>; \<open>c\<close> is the candidate of one of the triggers: that trigger's hour and minute,
  seconds and microseconds zero, on the day of \<open>now\<close>, or on the next day exactly when the
  same-day instant is not after \<open>now\<close>; and \<open>c\<close> is not after the candidate of any trigger.
\<close>

theorem next_push_time_least_candidate:
  assumes "day now < MAX_ORDINAL"
    and "\<exists>s\<in>set pts. \<exists>t. parse_time s = Inr t"
  shows "\<exists>c. fst (get_next_push_time now pts) = Inr c
           \<and> dt_less now c
           \<and> (\<exists>s\<in>set pts. \<exists>t. parse_time s = Inr t \<and> c = next_occurrence now t
                 \<and> hour c = t_hour t \<and> minute c = t_minute t \<and> hour c < 24 \<and> minute c < 60
                 \<and> second c = 0 \<and> microsecond c = 0
                 \<and> day c = (if dt_le (today_at now t) now then day now + 1 else day now))
           \<and> (\<forall>s\<in>set pts. \<forall>t. parse_time s = Inr t \<longrightarrow> dt_le c (next_occurrence now t))"
proof -
  from assms(2) obtain s0 t0 where s0: "s0 \<in> set pts" "parse_time s0 = Inr t0" by blast
  then have "t0 \<in> set (valid_times pts)" by (auto simp: valid_times_set)
  then obtain t ts where vt: "valid_times pts = t # ts"
    by (cases "valid_times pts") auto
  define b cs where "b = next_occurrence now t" and "cs = map (next_occurrence now) ts"
  have cands: "fst (push_candidates now pts) = b # cs"
    using push_candidates_fst[OF assms(1)] vt by (simp add: b_def cs_def)
  define c where "c = py_min b cs"
  have res: "fst (get_next_push_time now pts) = Inr c"
    using cands by (simp add: get_next_push_time_fst c_def)
  have "c \<in> set (b # cs)" unfolding c_def by (rule py_min_mem)
  then have "c \<in> next_occurrence now ` set (valid_times pts)"
    by (simp add: vt b_def cs_def)
  then obtain t' where t': "t' \<in> set (valid_times pts)" "c = next_occurrence now t'" by blast
  then obtain s' where s': "s' \<in> set pts" "parse_time s' = Inr t'"
    by (auto simp: valid_times_set)
  have after: "dt_less now c" using t'(2) by (simp add: next_occurrence_after)
  have fields: "hour c = t_hour t' \<and> minute c = t_minute t' \<and> hour c < 24 \<and> minute c < 60
      \<and> second c = 0 \<and> microsecond c = 0
      \<and> day c = (if dt_le (today_at now t') now then day now + 1 else day now)"
    using parse_time_range[OF s'(2)] by (simp add: t'(2) next_occurrence_def today_at_def)
  have least: "\<forall>s\<in>set pts. \<forall>u. parse_time s = Inr u \<longrightarrow> dt_le c (next_occurrence now u)"
  proof (intro ballI allI impI)
    fix s u
    assume "s \<in> set pts" "parse_time s = Inr u"
    then have "u \<in> set (valid_times pts)" by (auto simp: valid_times_set)
    then have "next_occurrence now u \<in> set (b # cs)" by (auto simp: vt b_def cs_def)
    then show "dt_le c (next_occurrence now u)"
      unfolding c_def using py_min_le_best[of b cs] py_min_le[of _ cs b] by auto
  qed
  show ?thesis using res after s' t'(2) fields least by blast
qed

text \<open>
  At 08:30 with the triggers 08:00 and 18:00 the next firing is 18:00 of the same day.
\<close>

theorem next_push_time_least_candidate_witness:
  "day \<lparr>day = 739000, hour = 8, minute = 30, second = 0, microsecond = 0\<rparr> < MAX_ORDINAL
   \<and> (\<exists>s\<in>set [''08:00'', ''18:00'']. \<exists>t. parse_time s = Inr t)
   \<and> fst (get_next_push_time \<lparr>day = 739000, hour = 8, minute = 30, second = 0, microsecond = 0\<rparr>
            [''08:00'', ''18:00''])
       = Inr \<lparr>day = 739000, hour = 18, minute = 0, second = 0, microsecond = 0\<rparr>
   \<and> dt_less \<lparr>day = 739000, hour = 8, minute = 30, second = 0, microsecond = 0\<rparr>
         \<lparr>day = 739000, hour = 18, minute = 0, second = 0, microsecond = 0\<rparr>"
proof -
  let ?now = "\<lparr>day = 739000, hour = 8, minute = 30, second = 0, microsecond = 0\<rparr>"
  let ?pts = "[''08:00'', ''18:00'']"
  have h1: "day ?now < MAX_ORDINAL" by (simp add: MAX_ORDINAL_def)
  have h2: "\<exists>s\<in>set ?pts. \<exists>t. parse_time s = Inr t"
    by (simp add: schedule_eval)
  have r: "fst (get_next_push_time ?now ?pts)
             = Inr \<lparr>day = 739000, hour = 18, minute = 0, second = 0, microsecond = 0\<rparr>"
    by (simp add: schedule_eval)
  from next_push_time_least_candidate[OF h1 h2]
  obtain c where "fst (get_next_push_time ?now ?pts) = Inr c" "dt_less ?now c" by blast
  with r have "dt_less ?now \<lparr>day = 739000, hour = 18, minute = 0, second = 0, microsecond = 0\<rparr>"
    by simp
  with h1 h2 r show ?thesis by blast
qed

text \<open>
  The claim as the specification words it, for any \<open>now\<close>, fails on the last day: at
  9999-12-31 12:00 the only trigger 08:00 is due tomorrow, \<open>candidate += timedelta(days=1)\<close>
  raises \<open>OverflowError\<close>, the \<open>except\<close> drops the trigger with a warning, and the function
  raises \<open>ValueError\<close> though the trigger is valid.
\<close>

theorem next_push_time_last_day_counterexample:
  "parse_time ''08:00'' = Inr \<lparr>t_hour = 8, t_minute = 0\<rparr>
   \<and> get_next_push_time \<lparr>day = 3652059, hour = 12, minute = 0, second = 0, microsecond = 0\<rparr> [''08:00'']
       = (Inl ValueError, [(''08:00'', OverflowError)])"
  by (simp add: schedule_eval)

lemma push_candidates_filter:
  "fst (push_candidates now (filter valid_time_str pts)) = fst (push_candidates now pts)"
proof (induction pts)
  case Nil
  show ?case by simp
next
  case (Cons s pts)
  show ?case
  proof (cases "parse_time s")
    case (Inl e)
    then have "\<not> valid_time_str s" by (simp add: valid_time_str_def)
    with Inl Cons show ?thesis
      by (simp add: push_candidate_invalid push_candidates_fst_Cons del: push_candidates.simps)
  next
    case (Inr t)
    then have "valid_time_str s" by (simp add: valid_time_str_def)
    with Cons show ?thesis
      by (cases "push_candidate now s")
         (simp_all add: push_candidates_fst_Cons del: push_candidates.simps)
  qed
qed

lemma push_candidates_warns:
  "s \<in> set pts \<Longrightarrow> parse_time s = Inl e \<Longrightarrow> (s, e) \<in> set (snd (push_candidates now pts))"
proof (induction pts)
  case Nil
  then show ?case by simp
next
  case (Cons a pts)
  show ?case
  proof (cases "s = a")
    case True
    with Cons.prems show ?thesis
      by (simp add: push_candidate_invalid push_candidates_snd_Cons del: push_candidates.simps)
  next
    case False
    with Cons have "(s, e) \<in> set (snd (push_candidates now pts))" by simp
    then show ?thesis
      by (cases "push_candidate now a")
         (simp_all add: push_candidates_snd_Cons del: push_candidates.simps)
  qed
qed

lemma push_candidates_none:
  "\<forall>s\<in>set pts. \<not> valid_time_str s \<Longrightarrow> fst (push_candidates now pts) = []"
proof (induction pts)
  case Nil
  show ?case by simp
next
  case (Cons a pts)
  then obtain e where "parse_time a = Inl e"
    by (cases "parse_time a") (auto simp: valid_time_str_def)
  with Cons show ?case
    by (simp add: push_candidate_invalid push_candidates_fst_Cons del: push_candidates.simps)
qed

text \<open>
  Claim C8. In \<open>_get_next_push_time\<close> a configured string that does not parse as a time
  is dropped: the result is the one the list without such strings gives, and each of
  them is reported in a warning, with the exception it raised (\<open>ValueError\<close>, or the
  \<open>OverflowError\<close> of \<open>datetime.time\<close> for a number beyond a C int). When no string of
  the configuration parses, the function raises \<open>ValueError\<close> and returns no instant.
\<close>

theorem invalid_push_times_dropped:
  "fst (get_next_push_time now pts) = fst (get_next_push_time now (filter valid_time_str pts))
   \<and> (\<forall>s\<in>set pts. \<not> valid_time_str s \<longrightarrow>
         (\<exists>e. parse_time s = Inl e \<and> (e = ValueError \<or> e = OverflowError)
              \<and> (s, e) \<in> set (snd (get_next_push_time now pts))))
   \<and> ((\<forall>s\<in>set pts. \<not> valid_time_str s) \<longrightarrow> fst (get_next_push_time now pts) = Inl ValueError)"
proof (intro conjI ballI impI)
  show "fst (get_next_push_time now pts) = fst (get_next_push_time now (filter valid_time_str pts))"
    by (simp add: get_next_push_time_fst push_candidates_filter)
next
  fix s
  assume s: "s \<in> set pts" "\<not> valid_time_str s"
  then obtain e where e: "parse_time s = Inl e"
    by (cases "parse_time s") (auto simp: valid_time_str_def)
  moreover from e have "e = ValueError \<or> e = OverflowError" by (rule parse_time_error)
  moreover from push_candidates_warns[OF s(1) e, of now]
  have "(s, e) \<in> set (snd (get_next_push_time now pts))"
    by (simp add: get_next_push_time_snd)
  ultimately show "\<exists>e. parse_time s = Inl e \<and> (e = ValueError \<or> e = OverflowError)
      \<and> (s, e) \<in> set (snd (get_next_push_time now pts))"
    by blast
next
  assume "\<forall>s\<in>set pts. \<not> valid_time_str s"
  then have "fst (push_candidates now pts) = []" by (rule push_candidates_none)
  then show "fst (get_next_push_time now pts) = Inl ValueError"
    by (simp add: get_next_push_time_fst)
qed

text \<open>
  With \<open>25:00\<close>, \<open>abc\<close> and \<open>2147483648:00\<close> beside 18:00 the result is that of 18:00
  alone and the three are warned about, the last with \<open>OverflowError\<close>; with \<open>25:00\<close> and
  \<open>abc\<close> alone the function raises.
\<close>

theorem invalid_push_times_dropped_witness:
  "\<not> valid_time_str ''25:00'' \<and> \<not> valid_time_str ''abc'' \<and> valid_time_str ''18:00''
   \<and> get_next_push_time \<lparr>day = 739000, hour = 8, minute = 30, second = 0, microsecond = 0\<rparr>
        [''25:00'', ''18:00'', ''abc'', ''2147483648:00'']
       = (Inr \<lparr>day = 739000, hour = 18, minute = 0, second = 0, microsecond = 0\<rparr>,
          [(''25:00'', ValueError), (''abc'', ValueError), (''2147483648:00'', OverflowError)])
   \<and> fst (get_next_push_time \<lparr>day = 739000, hour = 8, minute = 30, second = 0, microsecond = 0\<rparr>
        [''25:00'', ''abc'']) = Inl ValueError"
proof -
  let ?now = "\<lparr>day = 739000, hour = 8, minute = 30, second = 0, microsecond = 0\<rparr>"
  have v: "\<not> valid_time_str ''25:00''" "\<not> valid_time_str ''abc''" "valid_time_str ''18:00''"
    by (simp_all add: valid_time_str_def schedule_eval)
  have all: "\<forall>s\<in>set [''25:00'', ''abc'']. \<not> valid_time_str s" using v by simp
  have "fst (get_next_push_time ?now [''25:00'', ''abc'']) = Inl ValueError"
    using invalid_push_times_dropped[of ?now "[''25:00'', ''abc'']"] all by blast
  moreover have "get_next_push_time ?now [''25:00'', ''18:00'', ''abc'', ''2147483648:00'']
       = (Inr \<lparr>day = 739000, hour = 18, minute = 0, second = 0, microsecond = 0\<rparr>,
          [(''25:00'', ValueError), (''abc'', ValueError), (''2147483648:00'', OverflowError)])"
    by (simp add: schedule_eval)
  ultimately show ?thesis using v by simp
qed

section \<open>Properties of the content extractor\<close>

lemma find_append_list:
  "find P (xs @ ys) = (case find P xs of None \<Rightarrow> find P ys | Some x \<Rightarrow> Some x)"
  by (induction xs) auto

lemma find_Some_holds: "find P xs = Some x \<Longrightarrow> P x"
  by (induction xs) (auto split: if_splits)

lemma first_string_find:
  "usable (extract_first_string v) = find (\<lambda>s. s \<noteq> []) (strings_of v)"
  "first_string_in xs = find (\<lambda>s. s \<noteq> []) (strings_in xs)"
  "first_string_in_values kvs = find (\<lambda>s. s \<noteq> []) (strings_in_values kvs)"
proof (induction v and xs and kvs
    rule: extract_first_string_first_string_in_first_string_in_values.induct)
  case (9 item rest)
  then show ?case
    by (cases "extract_first_string item")
       (auto simp: usable_def find_append_list split: option.splits if_splits)
next
  case (11 kv rest)
  then show ?case
    by (cases "extract_first_string (snd kv)")
       (auto simp: usable_def find_append_list split: option.splits if_splits)
qed (auto simp: usable_def split: option.splits dest: find_Some_holds)

text \<open>
  Claim C4, as the code has it. A value that is itself a string is returned as it is,
  also when it is empty. For an object or an array, \<open>_extract_first_string\<close> returns the
  first \<^emph>\<open>non-empty\<close> string value in depth-first order (object values in key order, array
  items in order): the loops test \<open>if res:\<close>, which an empty string does not pass. It
  returns \<open>None\<close> exactly when the value is not a string and holds no non-empty string.
\<close>

theorem first_string_is_first_nonempty:
  "extract_first_string v =
     (case v of JStr s \<Rightarrow> Some s | _ \<Rightarrow> find (\<lambda>s. s \<noteq> []) (strings_of v))
   \<and> (extract_first_string v = None
        \<longleftrightarrow> (\<forall>s. v \<noteq> JStr s) \<and> (\<forall>s\<in>set (strings_of v). s = []))"
proof -
  have a: "extract_first_string v =
     (case v of JStr s \<Rightarrow> Some s | _ \<Rightarrow> find (\<lambda>s. s \<noteq> []) (strings_of v))"
    by (cases v) (simp_all add: first_string_find)
  have b: "find (\<lambda>s. s \<noteq> []) (strings_of v) = None \<longleftrightarrow> (\<forall>s\<in>set (strings_of v). s = [])"
    by (auto simp: find_None_iff)
  show ?thesis using a b by (cases v) auto
qed

text \<open>
  An array whose only string is empty gives \<open>None\<close>; an object whose first string is empty
  gives the next one.
\<close>

theorem first_string_is_first_nonempty_witness:
  "strings_of (JArr [JInt 1, JStr '''']) = ['''']
   \<and> extract_first_string (JArr [JInt 1, JStr '''']) = None
   \<and> extract_first_string (JObj [(''a'', JArr [JStr '''', JInt 3]), (''b'', JStr ''x'')]) = Some ''x''"
proof -
  let ?v = "JArr [JInt 1, JStr '''']"
  have h1: "\<forall>s. ?v \<noteq> JStr s" by simp
  have h2: "\<forall>s\<in>set (strings_of ?v). s = []" by simp
  have "extract_first_string ?v = None"
    using first_string_is_first_nonempty[of ?v] h1 h2 by blast
  moreover have "extract_first_string (JObj [(''a'', JArr [JStr '''', JInt 3]), (''b'', JStr ''x'')])
      = Some ''x''"
    using first_string_is_first_nonempty[of "JObj [(''a'', JArr [JStr '''', JInt 3]), (''b'', JStr ''x'')]"]
    by simp
  ultimately show ?thesis by simp
qed

text \<open>
  The claim as the specification words it fails on empty strings: in \<open>["", "a"]\<close> the first
  string in depth-first order is the empty one, and the code returns \<open>"a"\<close>; in \<open>[""]\<close> a
  string exists, and the code returns \<open>None\<close>.
\<close>

theorem first_string_empty_counterexample:
  "extract_first_string (JArr [JStr '''', JStr ''a'']) = Some ''a''
   \<and> first_of (strings_of (JArr [JStr '''', JStr ''a''])) = Some ''''
   \<and> extract_first_string (JArr [JStr '''']) = None
   \<and> strings_of (JArr [JStr '''']) = ['''']"
  by (simp add: first_of_def)

lemma startswith_nonempty: "startswith s (p # ps) \<Longrightarrow> s \<noteq> []"
  by (cases s) auto

lemma image_url_nonempty: "looks_like_image_url s \<Longrightarrow> s \<noteq> []"
  by (auto simp: looks_like_image_url_def dest: startswith_nonempty)

lemma first_image_url_find:
  "extract_first_image_url v = find looks_like_image_url (strings_of v)"
  "first_image_url_in xs = find looks_like_image_url (strings_in xs)"
  "first_image_url_in_values kvs = find looks_like_image_url (strings_in_values kvs)"
proof (induction v and xs and kvs
    rule: extract_first_image_url_first_image_url_in_first_image_url_in_values.induct)
  case (9 item rest)
  then show ?case
    by (cases "find looks_like_image_url (strings_of item)")
       (auto simp: find_append_list dest: find_Some_holds image_url_nonempty)
next
  case (11 kv rest)
  then show ?case
    by (cases "find looks_like_image_url (strings_of (snd kv))")
       (auto simp: find_append_list dest: find_Some_holds image_url_nonempty)
qed simp_all

text \<open>
  Claim C5, as the code has it. \<open>_extract_first_image_url\<close> returns the first string value in
  depth-first order that starts with the four characters \<open>http\<close> and contains \<open>.jpg\<close>,
  \<open>.jpeg\<close> or \<open>.png\<close> anywhere in it, and \<open>None\<close> when the tree holds no such string. It
  returns \<open>https://x.test/a.png?x=1\<close> itself and \<open>None\<close> for \<open>https://x.test/a.gif\<close>.
\<close>

theorem first_image_url_is_first_match:
  "extract_first_image_url v = find looks_like_image_url (strings_of v)
   \<and> extract_first_image_url (JStr ''https://x.test/a.png?x=1'') = Some ''https://x.test/a.png?x=1''
   \<and> extract_first_image_url (JStr ''https://x.test/a.gif'') = None"
  by (simp add: first_image_url_find) (simp add: looks_like_image_url_def)

text \<open>
  The test of the scheme is \<open>startswith("http")\<close>: a string that starts with these
  characters and is no HTTP or HTTPS address passes it, so the first string that starts
  with an HTTP(S) scheme is not always the one returned.
\<close>

theorem first_image_url_scheme_counterexample:
  "extract_first_image_url (JArr [JStr ''httpd-logo.png'', JStr ''https://x.test/a.png''])
     = Some ''httpd-logo.png''
   \<and> \<not> has_http_scheme ''httpd-logo.png''
   \<and> has_http_scheme ''https://x.test/a.png''"
  by (simp add: looks_like_image_url_def has_http_scheme_def)

section \<open>Properties of the payload fetchers\<close>

lemma retry_over_three:
  "retry_over tag failed body [0..<retries] =
     (case body 0 of
        (Inr p, e0) \<Rightarrow> ((p, True), e0)
      | (Inl x0, e0) \<Rightarrow>
          (case body 1 of
             (Inr p, e1) \<Rightarrow> ((p, True), e0 @ [LogError (retry_log_line tag 0 x0), Sleep 1] @ e1)
           | (Inl x1, e1) \<Rightarrow>
               (case body 2 of
                  (Inr p, e2) \<Rightarrow>
                    ((p, True), e0 @ [LogError (retry_log_line tag 0 x0), Sleep 1]
                                @ e1 @ [LogError (retry_log_line tag 1 x1), Sleep 1] @ e2)
                | (Inl x2, e2) \<Rightarrow>
                    ((failed @ x2, False),
                     e0 @ [LogError (retry_log_line tag 0 x0), Sleep 1]
                     @ e1 @ [LogError (retry_log_line tag 1 x1), Sleep 1]
                     @ e2 @ [LogError (retry_log_line tag 2 x2)]))))"
proof -
  have u: "[0..<retries] = [0, 1, 2]"
    by (simp add: retries_def upt_rec)
  show ?thesis
    unfolding u by (simp add: retries_def Let_def split: prod.splits sum.splits)
qed

lemma failed_attempts_simps:
  "failed_attempts tag body 0 = []"
  "failed_attempts tag body (Suc k) =
     failed_attempts tag body k
     @ snd (body k) @ [LogError (retry_log_line tag k (projl (fst (body k)))), Sleep 1]"
  by (simp_all add: failed_attempts_def)

lemma less_three: "k < (3::nat) \<longleftrightarrow> k = 0 \<or> k = 1 \<or> k = 2"
  by auto

lemma retry_contract_holds:
  assumes ev: "\<And>j. length (filter is_request (snd (body j))) = 1"
    and sl: "\<And>j. filter is_sleep (snd (body j)) = []"
  shows "retry_contract tag failed body (retry_over tag failed body [0..<retries])"
proof -
  have two: "2 = Suc (Suc 0)" by simp
  have c0: "fst (body 0) = Inr p \<Longrightarrow>
      retry_over tag failed body [0..<retries] = ((p, True), snd (body 0))" for p
    by (cases "body 0") (simp add: retry_over_three)
  have c1: "isl (fst (body 0)) \<Longrightarrow> fst (body 1) = Inr p \<Longrightarrow>
      retry_over tag failed body [0..<retries]
        = ((p, True), failed_attempts tag body 1 @ snd (body 1))" for p
    by (cases "body 0"; cases "body 1"; cases "fst (body 0)")
       (simp_all add: retry_over_three failed_attempts_simps)
  have c2: "isl (fst (body 0)) \<Longrightarrow> isl (fst (body 1)) \<Longrightarrow> fst (body 2) = Inr p \<Longrightarrow>
      retry_over tag failed body [0..<retries]
        = ((p, True), failed_attempts tag body 2 @ snd (body 2))" for p
    by (cases "body 0"; cases "body 1"; cases "body 2"; cases "fst (body 0)"; cases "fst (body 1)")
       (simp_all add: retry_over_three failed_attempts_simps two)
  have c3: "isl (fst (body 0)) \<Longrightarrow> isl (fst (body 1)) \<Longrightarrow> isl (fst (body 2)) \<Longrightarrow>
      retry_over tag failed body [0..<retries]
        = ((failed @ projl (fst (body 2)), False),
           failed_attempts tag body 2 @ snd (body 2)
           @ [LogError (retry_log_line tag 2 (projl (fst (body 2))))])"
    by (cases "body 0"; cases "body 1"; cases "body 2";
        cases "fst (body 0)"; cases "fst (body 1)"; cases "fst (body 2)")
       (simp_all add: retry_over_three failed_attempts_simps two)
  have cnt: "length (filter is_request (failed_attempts tag body k)) = k"
            "filter is_sleep (failed_attempts tag body k) = replicate k (Sleep 1)" for k
    by (induction k)
       (simp_all add: failed_attempts_simps ev sl is_request_def is_sleep_def replicate_append_same)
  define R where "R = retry_over tag failed body [0..<retries]"
  show ?thesis
    unfolding retry_contract_def R_def[symmetric]
  proof (intro conjI allI impI)
    fix k payload
    assume k: "k < retries"
      and h: "(\<forall>j<k. isl (fst (body j))) \<and> fst (body k) = Inr payload"
    from k have "k = 0 \<or> k = 1 \<or> k = 2" by (simp add: retries_def less_three)
    then have r: "R = ((payload, True), failed_attempts tag body k @ snd (body k))"
      unfolding R_def using h c0[of payload] c1[of payload] c2[of payload]
      by (auto simp: failed_attempts_simps less_three)
    show "fst R = (payload, True)" by (simp add: r)
    show "snd R = failed_attempts tag body k @ snd (body k)"
      by (simp add: r)
    show "length (filter is_request (snd R)) = k + 1"
      by (simp add: r cnt ev)
    show "filter is_sleep (snd R) = replicate k (Sleep 1)"
      by (simp add: r cnt sl)
  next
    assume "\<forall>j<retries. isl (fst (body j))"
    then have "isl (fst (body 0))" "isl (fst (body 1))" "isl (fst (body 2))"
      by (simp_all add: retries_def)
    note r = c3[OF this, folded R_def]
    show "fst R = (failed @ projl (fst (body (retries - 1))), False)"
      by (simp add: r retries_def)
    show "snd R = failed_attempts tag body (retries - 1) @ snd (body (retries - 1))
          @ [LogError (retry_log_line tag (retries - 1) (projl (fst (body (retries - 1)))))]"
      by (simp add: r retries_def)
    show "length (filter is_request (snd R)) = retries"
      by (simp add: r cnt ev retries_def is_request_def)
    show "filter is_sleep (snd R) = replicate (retries - 1) (Sleep 1)"
      by (simp add: r cnt sl retries_def is_sleep_def replicate_append_same)
  qed
qed

lemma generic_text_attempt_events:
  "snd (generic_text_attempt cfg api_url fmt io) = [Request (generic_text_url cfg api_url fmt)]"
  by (simp add: generic_text_attempt_def Let_def)

lemma write_temp_events:
  "filter is_request (snd (write_temp io b evs)) = filter is_request evs"
  "filter is_sleep (snd (write_temp io b evs)) = filter is_sleep evs"
  by (simp_all add: write_temp_def is_request_def is_sleep_def split: sum.splits)

lemma generic_image_attempt_events:
  "length (filter is_request (snd (generic_image_attempt cfg api_url fmt io))) = 1"
  "filter is_sleep (snd (generic_image_attempt cfg api_url fmt io)) = []"
  by (simp_all add: generic_image_attempt_def Let_def write_temp_events is_request_def is_sleep_def
        split: sum.splits option.splits)

lemma fetch_retry_contract_holds_text:
  "retry_contract tag_generic_text msg_api_error
     (\<lambda>attempt. generic_text_attempt cfg api_url fmt (net attempt))
     (generic_fetch_text cfg net api_url fmt)"
  unfolding generic_fetch_text_def
  by (rule retry_contract_holds)
     (simp_all add: generic_text_attempt_events is_request_def is_sleep_def)

lemma fetch_retry_contract_holds_image:
  "retry_contract tag_generic_image msg_api_error
     (\<lambda>attempt. generic_image_attempt cfg api_url fmt (net attempt))
     (generic_fetch_image_path cfg net api_url fmt)"
  unfolding generic_fetch_image_path_def
  by (rule retry_contract_holds) (simp_all add: generic_image_attempt_events)

text \<open>
  Claim C7. \<open>_generic_fetch_text\<close> and \<open>_generic_fetch_image_path\<close> run with a budget of
  3 attempts and keep the retry contract: an attempt that succeeds ends the fetch with
  its payload and nothing after it; each failed attempt before the last is followed by
  its log line and exactly one wait of one second; a fetch whose three attempts all fail
  returns the failure text with the last error after exactly three requests and two
  waits. So failing twice and then succeeding takes three requests and two waits.
\<close>

theorem fetch_retry_contract:
  "retries = 3
   \<and> retry_contract tag_generic_text msg_api_error
        (\<lambda>attempt. generic_text_attempt cfg api_url fmt (net attempt))
        (generic_fetch_text cfg net api_url fmt)
   \<and> retry_contract tag_generic_image msg_api_error
        (\<lambda>attempt. generic_image_attempt cfg api_url fmt (net attempt))
        (generic_fetch_image_path cfg net api_url fmt)"
  by (simp add: retries_def fetch_retry_contract_holds_text fetch_retry_contract_holds_image)

lemma retry_contract_success:
  "retry_contract tag failed body r \<Longrightarrow> k < retries \<Longrightarrow> \<forall>j<k. isl (fst (body j)) \<Longrightarrow>
   fst (body k) = Inr payload \<Longrightarrow>
   fst r = (payload, True) \<and> snd r = failed_attempts tag body k @ snd (body k)
   \<and> length (filter is_request (snd r)) = k + 1
   \<and> filter is_sleep (snd r) = replicate k (Sleep 1)"
  unfolding retry_contract_def by blast

lemma retry_contract_exhausted:
  "retry_contract tag failed body r \<Longrightarrow> \<forall>j<retries. isl (fst (body j)) \<Longrightarrow>
   fst r = (failed @ projl (fst (body (retries - 1))), False)
   \<and> snd r = failed_attempts tag body (retries - 1) @ snd (body (retries - 1))
               @ [LogError (retry_log_line tag (retries - 1) (projl (fst (body (retries - 1)))))]
   \<and> length (filter is_request (snd r)) = retries
   \<and> filter is_sleep (snd r) = replicate (retries - 1) (Sleep 1)"
  unfolding retry_contract_def by blast

lemmas fetch_eval =
  generic_text_attempt_def generic_image_attempt_def generic_text_url_def generic_image_url_def
  with_api_key_def example_config_def flaky_net_def dead_net_def json_net_def ok_response_def
  write_temp_def Let_def

text \<open>
  A text fetch that times out, is answered 500 and is then answered 200 with \<open>hello\<close>
  returns \<open>hello\<close> after three requests and two waits; an image fetch whose requests all
  time out returns the failure text of the last time-out after three requests and two
  waits.
\<close>

theorem fetch_retry_contract_witness:
  "isl (fst (generic_text_attempt example_config ''https://api.test/x'' ''text'' (flaky_net 0)))
   \<and> isl (fst (generic_text_attempt example_config ''https://api.test/x'' ''text'' (flaky_net 1)))
   \<and> fst (generic_text_attempt example_config ''https://api.test/x'' ''text'' (flaky_net 2)) = Inr ''hello''
   \<and> fst (generic_fetch_text example_config flaky_net ''https://api.test/x'' ''text'') = (''hello'', True)
   \<and> length (filter is_request (snd (generic_fetch_text example_config flaky_net ''https://api.test/x'' ''text''))) = 3
   \<and> filter is_sleep (snd (generic_fetch_text example_config flaky_net ''https://api.test/x'' ''text''))
       = [Sleep 1, Sleep 1]
   \<and> fst (generic_fetch_image_path example_config dead_net ''https://api.test/x'' ''image'')
       = (msg_api_error @ ''timed out'', False)
   \<and> length (filter is_request (snd (generic_fetch_image_path example_config dead_net ''https://api.test/x'' ''image''))) = 3
   \<and> filter is_sleep (snd (generic_fetch_image_path example_config dead_net ''https://api.test/x'' ''image''))
       = [Sleep 1, Sleep 1]"
proof -
  let ?api = "''https://api.test/x''"
  let ?tb = "\<lambda>attempt. generic_text_attempt example_config ?api ''text'' (flaky_net attempt)"
  let ?ib = "\<lambda>attempt. generic_image_attempt example_config ?api ''image'' (dead_net attempt)"
  have t0: "isl (fst (?tb 0))" and t1: "isl (fst (?tb 1))" and t2: "fst (?tb 2) = Inr ''hello''"
    by (simp_all add: fetch_eval)
  have tpre: "\<forall>j<2. isl (fst (?tb j))"
    using t0 t1 by (simp add: less_Suc_eq numeral_2_eq_2)
  have i: "\<forall>j<retries. isl (fst (?ib j))"
    by (simp add: fetch_eval)
  have ilast: "projl (fst (?ib 2)) = ''timed out''"
    by (simp add: fetch_eval)
  note c = fetch_retry_contract[of example_config ?api "''text''" flaky_net]
  note d = fetch_retry_contract[of example_config ?api "''image''" dead_net]
  have k2: "(2::nat) < retries" by (simp add: retries_def)
  from c have rc: "retry_contract tag_generic_text msg_api_error ?tb
      (generic_fetch_text example_config flaky_net ?api ''text'')" by blast
  note a = retry_contract_success[OF rc k2 tpre t2]
  from d have rd: "retry_contract tag_generic_image msg_api_error ?ib
      (generic_fetch_image_path example_config dead_net ?api ''image'')" by blast
  note b = retry_contract_exhausted[OF rd i]
  have r2: "replicate 2 (Sleep 1) = [Sleep 1, Sleep 1]" by (simp add: numeral_2_eq_2)
  have r3: "retries = 3" "replicate (retries - 1) (Sleep 1) = [Sleep 1, Sleep 1]"
    by (simp_all add: retries_def numeral_2_eq_2)
  note a1 = a[THEN conjunct1] and a3 = a[THEN conjunct2, THEN conjunct2, THEN conjunct1]
    and a4 = a[THEN conjunct2, THEN conjunct2, THEN conjunct2]
  note b1 = b[THEN conjunct1] and b3 = b[THEN conjunct2, THEN conjunct2, THEN conjunct1]
    and b4 = b[THEN conjunct2, THEN conjunct2, THEN conjunct2]
  show ?thesis
    using t0 t1 t2 a1 a3 a4 b1 b3 b4 ilast by (simp add: r3 numeral_2_eq_2)
qed

lemma retry_contract_next_attempt:
  assumes rc: "retry_contract tag failed body r"
    and k: "Suc k < retries"
    and f: "\<forall>j<Suc k. isl (fst (body j))"
  shows "\<exists>rest. snd r = failed_attempts tag body (Suc k) @ snd (body (Suc k)) @ rest"
proof (cases "isl (fst (body (Suc k)))")
  case False
  then obtain p where p: "fst (body (Suc k)) = Inr p" by (cases "fst (body (Suc k))") auto
  from retry_contract_success[OF rc k f p] show ?thesis by simp
next
  case True
  with f have f1: "\<forall>j<Suc (Suc k). isl (fst (body j))" by (simp add: less_Suc_eq)
  from k have "k = 0 \<or> k = 1" by (auto simp: retries_def)
  then show ?thesis
  proof
    assume k1: "k = 1"
    with f1 have "\<forall>j<retries. isl (fst (body j))"
      by (simp add: retries_def numeral_3_eq_3)
    from retry_contract_exhausted[OF rc this]
    show ?thesis by (simp add: k1 retries_def numeral_2_eq_2)
  next
    assume k0: "k = 0"
    show ?thesis
    proof (cases "isl (fst (body 2))")
      case False
      then obtain p where p: "fst (body 2) = Inr p" by (cases "fst (body 2)") auto
      have "(2::nat) < retries" by (simp add: retries_def)
      from retry_contract_success[OF rc this _ p] f1 k0
      have "snd r = failed_attempts tag body 2 @ snd (body 2)" by (simp add: numeral_2_eq_2)
      then show ?thesis by (simp add: k0 numeral_2_eq_2 failed_attempts_simps)
    next
      case t2: True
      with f1 k0 have "\<forall>j<retries. isl (fst (body j))"
        by (simp add: retries_def less_Suc_eq numeral_3_eq_3 numeral_2_eq_2)
      from retry_contract_exhausted[OF rc this]
      show ?thesis by (simp add: k0 retries_def numeral_2_eq_2 failed_attempts_simps)
    qed
  qed
qed

lemma image_attempt_no_match:
  "fmt = ''text'' \<Longrightarrow> json_answer io (generic_image_url cfg api_url fmt) data \<Longrightarrow>
   extract_first_image_url data = None \<Longrightarrow>
   generic_image_attempt cfg api_url fmt io
     = (Inl msg_no_image_url, [Request (generic_image_url cfg api_url fmt)])"
  by (auto simp: generic_image_attempt_def json_answer_def Let_def split: sum.splits)

lemma text_attempt_no_match:
  "fmt = ''image'' \<Longrightarrow> json_answer io (generic_text_url cfg api_url fmt) data \<Longrightarrow>
   usable (extract_first_string data) = None \<Longrightarrow>
   generic_text_attempt cfg api_url fmt io
     = (Inr (py_str data), [Request (generic_text_url cfg api_url fmt)])"
  by (auto simp: generic_text_attempt_def json_answer_def usable_def Let_def
      split: sum.splits option.splits if_splits)

text \<open>
  Claim C6, as the code has it. Take an attempt that is reached (every attempt before it
  failed) and is answered 200 with a JSON document. In image mode
  (\<open>_generic_fetch_image_path\<close> asking for JSON), when the extractor finds no image
  address the attempt fails with \<open>msg_no_image_url\<close> and gives no payload; unless it was
  the last attempt, its log line and the wait are followed by the next attempt; when it
  was the last, the fetch returns the failure text. In text mode (\<open>_generic_fetch_text\<close>
  asking for JSON), when the extractor finds no usable string the attempt does not fail:
  \<open>txt or str(data)\<close> makes the fetch succeed with \<open>str(data)\<close> as its payload, and no
  further attempt is made.
\<close>

theorem no_match_retries_image_not_text:
  "(fmt = ''text'' \<and> k < retries
      \<and> (\<forall>j<k. isl (fst (generic_image_attempt cfg api_url fmt (net j))))
      \<and> json_answer (net k) (generic_image_url cfg api_url fmt) data
      \<and> extract_first_image_url data = None
    \<longrightarrow> fst (generic_image_attempt cfg api_url fmt (net k)) = Inl msg_no_image_url
        \<and> (Suc k < retries \<longrightarrow>
             (\<exists>rest. snd (generic_fetch_image_path cfg net api_url fmt)
                = failed_attempts tag_generic_image
                    (\<lambda>attempt. generic_image_attempt cfg api_url fmt (net attempt)) (Suc k)
                  @ snd (generic_image_attempt cfg api_url fmt (net (Suc k))) @ rest))
        \<and> (Suc k = retries \<longrightarrow>
             fst (generic_fetch_image_path cfg net api_url fmt)
               = (msg_api_error @ msg_no_image_url, False)))
   \<and> (fmt = ''image'' \<and> k < retries
      \<and> (\<forall>j<k. isl (fst (generic_text_attempt cfg api_url fmt (net j))))
      \<and> json_answer (net k) (generic_text_url cfg api_url fmt) data
      \<and> usable (extract_first_string data) = None
    \<longrightarrow> fst (generic_fetch_text cfg net api_url fmt) = (py_str data, True)
        \<and> snd (generic_fetch_text cfg net api_url fmt)
            = failed_attempts tag_generic_text
                (\<lambda>attempt. generic_text_attempt cfg api_url fmt (net attempt)) k
              @ [Request (generic_text_url cfg api_url fmt)])"
proof (intro conjI impI)
  let ?ib = "\<lambda>attempt. generic_image_attempt cfg api_url fmt (net attempt)"
  assume h: "fmt = ''text'' \<and> k < retries \<and> (\<forall>j<k. isl (fst (?ib j)))
      \<and> json_answer (net k) (generic_image_url cfg api_url fmt) data
      \<and> extract_first_image_url data = None"
  then have a: "?ib k = (Inl msg_no_image_url, [Request (generic_image_url cfg api_url fmt)])"
    using image_attempt_no_match[of fmt "net k" cfg api_url data] by blast
  then show "fst (?ib k) = Inl msg_no_image_url" by simp
  have rc: "retry_contract tag_generic_image msg_api_error ?ib
      (generic_fetch_image_path cfg net api_url fmt)"
    using fetch_retry_contract_holds_image[of cfg api_url fmt net] .
  from h have h2: "\<forall>j<k. isl (fst (?ib j))" by blast
  from a have "isl (fst (?ib k))" by simp
  with h2 have f: "\<forall>j<Suc k. isl (fst (?ib j))" by (auto simp: less_Suc_eq)
  {
    assume "Suc k < retries"
    from retry_contract_next_attempt[OF rc this f]
    show "\<exists>rest. snd (generic_fetch_image_path cfg net api_url fmt)
        = failed_attempts tag_generic_image ?ib (Suc k) @ snd (?ib (Suc k)) @ rest" .
  }
  {
    assume e: "Suc k = retries"
    with f have "\<forall>j<retries. isl (fst (?ib j))" by simp
    moreover from e have "retries - 1 = k" by simp
    ultimately show "fst (generic_fetch_image_path cfg net api_url fmt)
        = (msg_api_error @ msg_no_image_url, False)"
      using retry_contract_exhausted[OF rc] a by simp
  }
next
  let ?tb = "\<lambda>attempt. generic_text_attempt cfg api_url fmt (net attempt)"
  assume h: "fmt = ''image'' \<and> k < retries \<and> (\<forall>j<k. isl (fst (?tb j)))
      \<and> json_answer (net k) (generic_text_url cfg api_url fmt) data
      \<and> usable (extract_first_string data) = None"
  then have a: "?tb k = (Inr (py_str data), [Request (generic_text_url cfg api_url fmt)])"
    using text_attempt_no_match[of fmt "net k" cfg api_url data] by blast
  have rc: "retry_contract tag_generic_text msg_api_error ?tb
      (generic_fetch_text cfg net api_url fmt)"
    using fetch_retry_contract_holds_text[of cfg api_url fmt net] .
  from h have k: "k < retries" and f: "\<forall>j<k. isl (fst (?tb j))" by blast+
  from a have p: "fst (?tb k) = Inr (py_str data)" by simp
  note s = retry_contract_success[OF rc k f p]
  from s show "fst (generic_fetch_text cfg net api_url fmt) = (py_str data, True)" by simp
  from s a show "snd (generic_fetch_text cfg net api_url fmt)
      = failed_attempts tag_generic_text ?tb k @ [Request (generic_text_url cfg api_url fmt)]"
    by simp
qed

lemmas str_eval = py_str_def int_str_def nat_digits.simps usable_def json_answer_def text_answer_def

text \<open>
  With every request answered 200 and the JSON document \<open>5\<close>: the image fetch fails
  three times and returns the failure text, its second attempt following the first; the
  text fetch returns \<open>5\<close> after one request.
\<close>

theorem no_match_retries_image_not_text_witness:
  "fst (generic_fetch_image_path example_config (json_net (JInt 5)) ''https://api.test/x'' ''text'')
     = (msg_api_error @ msg_no_image_url, False)
   \<and> (\<exists>rest. snd (generic_fetch_image_path example_config (json_net (JInt 5)) ''https://api.test/x'' ''text'')
        = failed_attempts tag_generic_image
            (\<lambda>attempt. generic_image_attempt example_config ''https://api.test/x'' ''text''
                          (json_net (JInt 5) attempt)) (Suc 0)
          @ snd (generic_image_attempt example_config ''https://api.test/x'' ''text''
                   (json_net (JInt 5) (Suc 0))) @ rest)
   \<and> generic_fetch_text example_config (json_net (JInt 5)) ''https://api.test/x'' ''image''
     = ((''5'', True), [Request ''https://api.test/x?format=json''])"
proof -
  let ?api = "''https://api.test/x''"
  let ?net = "json_net (JInt 5)"
  let ?ib = "\<lambda>attempt. generic_image_attempt example_config ?api ''text'' (?net attempt)"
  note t = no_match_retries_image_not_text[of _ _ example_config ?api ?net "JInt 5"]
  have i2: "''text'' = ''text'' \<and> 2 < retries \<and> (\<forall>j<2. isl (fst (?ib j)))
      \<and> json_answer (?net 2) (generic_image_url example_config ?api ''text'') (JInt 5)
      \<and> extract_first_image_url (JInt 5) = None"
    by (simp add: retries_def fetch_eval str_eval)
  have i0: "''text'' = ''text'' \<and> 0 < retries \<and> (\<forall>j<0. isl (fst (?ib j)))
      \<and> json_answer (?net 0) (generic_image_url example_config ?api ''text'') (JInt 5)
      \<and> extract_first_image_url (JInt 5) = None"
    by (simp add: retries_def fetch_eval str_eval)
  have s2: "Suc 2 = retries" and s0: "Suc 0 < retries" by (simp_all add: retries_def)
  have a: "fst (generic_fetch_image_path example_config ?net ?api ''text'')
      = (msg_api_error @ msg_no_image_url, False)"
    using t[of "''text''" 2, THEN conjunct1] i2 s2 by blast
  have b: "\<exists>rest. snd (generic_fetch_image_path example_config ?net ?api ''text'')
        = failed_attempts tag_generic_image ?ib (Suc 0) @ snd (?ib (Suc 0)) @ rest"
    using t[of "''text''" 0, THEN conjunct1] i0 s0 by blast
  have x0: "''image'' = ''image'' \<and> 0 < retries
      \<and> (\<forall>j<0. isl (fst (generic_text_attempt example_config ?api ''image'' (?net j))))
      \<and> json_answer (?net 0) (generic_text_url example_config ?api ''image'') (JInt 5)
      \<and> usable (extract_first_string (JInt 5)) = None"
    by (simp add: retries_def fetch_eval str_eval)
  have c: "fst (generic_fetch_text example_config ?net ?api ''image'') = (py_str (JInt 5), True)
      \<and> snd (generic_fetch_text example_config ?net ?api ''image'')
          = failed_attempts tag_generic_text
              (\<lambda>attempt. generic_text_attempt example_config ?api ''image'' (?net attempt)) 0
            @ [Request (generic_text_url example_config ?api ''image'')]"
    using t[of "''image''" 0, THEN conjunct2] x0 by blast
  have c': "generic_fetch_text example_config ?net ?api ''image''
      = ((''5'', True), [Request ''https://api.test/x?format=json''])"
    using c by (simp add: prod_eq_iff failed_attempts_simps fetch_eval str_eval)
  show ?thesis using a b c' by blast
qed

text \<open>
  The claim as the specification words it fails in text mode: answered with the JSON
  document \<open>[1, 2]\<close>, which holds no string, the fetch does not retry. It succeeds at the
  first attempt with the payload \<open>[1, 2]\<close>.
\<close>

theorem no_match_text_succeeds_counterexample:
  "extract_first_string (JArr [JInt 1, JInt 2]) = None
   \<and> json_answer (json_net (JArr [JInt 1, JInt 2]) 0) ''https://api.test/x?format=json'' (JArr [JInt 1, JInt 2])
   \<and> generic_fetch_text example_config (json_net (JArr [JInt 1, JInt 2])) ''https://api.test/x'' ''image''
       = ((''[1, 2]'', True), [Request ''https://api.test/x?format=json''])"
  by (simp add: generic_fetch_text_def retry_over_three fetch_eval str_eval)

lemma nat_digits_nonempty: "nat_digits n \<noteq> []"
  by (subst nat_digits.simps) simp

lemma int_str_nonempty: "int_str i \<noteq> []"
  by (simp add: int_str_def nat_digits_nonempty)

lemma repr_str_nonempty: "repr_str s \<noteq> []"
  by (simp add: repr_str_def Let_def)

lemma py_repr_empty: "py_repr v = [] \<longleftrightarrow> v = JFloat []"
  by (cases v) (simp_all add: int_str_nonempty repr_str_nonempty)

lemma py_str_empty: "py_str v = [] \<longleftrightarrow> v = JStr [] \<or> v = JFloat []"
  by (cases v) (simp_all add: py_str_def int_str_nonempty)

lemma join_empty: "join sep (l # ls) = [] \<Longrightarrow> l = []"
  by (cases ls) simp_all

lemma news_text_nonempty: "news_text_of date data = Inr p \<Longrightarrow> p \<noteq> []"
  by (auto simp: news_text_of_def Let_def msg_news_title_def
      split: sum.splits if_splits dest!: join_empty)

lemma retry_over_ok:
  "snd (fst (retry_over tag failed body as)) \<Longrightarrow>
   \<exists>j\<in>set as. fst (body j) = Inr (fst (fst (retry_over tag failed body as)))"
proof (induction as)
  case Nil
  then show ?case by simp
next
  case (Cons a as)
  then show ?case
    by (cases "body a"; cases "fst (body a)") (auto simp: Let_def split: if_splits)
qed

lemma retry_over_failed:
  "\<not> snd (fst (retry_over tag failed body as)) \<Longrightarrow> failed \<noteq> [] \<Longrightarrow>
   fst (fst (retry_over tag failed body as)) \<noteq> []"
proof (induction as)
  case Nil
  then show ?case by (simp add: msg_unknown_error_def)
next
  case (Cons a as)
  then show ?case
    by (cases "body a"; cases "fst (body a)") (auto simp: Let_def split: if_splits)
qed

lemma text_attempt_empty:
  "fst (generic_text_attempt cfg api_url fmt io) = Inr [] \<Longrightarrow>
   (if fmt = ''image''
    then json_answer io (generic_text_url cfg api_url fmt) (JStr [])
         \<or> json_answer io (generic_text_url cfg api_url fmt) (JFloat [])
    else text_answer io (generic_text_url cfg api_url fmt) [])"
  by (auto simp: generic_text_attempt_def json_answer_def text_answer_def Let_def py_str_empty
      split: sum.splits option.splits if_splits)

lemma news_attempt_empty:
  "fst (news_text_attempt cfg date io) = Inr [] \<Longrightarrow>
   format cfg \<noteq> ''image'' \<and> text_answer io (news_text_url cfg date) []"
  by (auto simp: news_text_attempt_def text_answer_def Let_def
      split: sum.splits if_splits dest: news_text_nonempty)

lemma write_temp_nonempty: "fst (write_temp io b evs) = Inr p \<Longrightarrow> p \<noteq> []"
  by (auto simp: write_temp_def split: sum.splits)

lemma image_attempt_nonempty:
  "fst (generic_image_attempt cfg api_url fmt io) = Inr p \<Longrightarrow> p \<noteq> []"
  by (auto simp: generic_image_attempt_def Let_def
      split: sum.splits option.splits if_splits dest: write_temp_nonempty)

text \<open>
  Claim C9, as the code has it. A failed result never carries an empty text, and a
  successful image fetch never an empty path. A successful text fetch carries an empty
  text only when the endpoint's own answer is empty: in plain mode a body that decodes
  to the empty string, which \<open>_generic_fetch_text\<close> and \<open>_fetch_news_text\<close> return as it
  is; in the JSON mode of \<open>_generic_fetch_text\<close> a document that is the empty string (the
  model's float without text is no value of Python). The JSON mode of
  \<open>_fetch_news_text\<close> always returns a title line.
\<close>

theorem successful_payload_empty_only_from_empty_answer:
  "(\<not> snd (fst (generic_fetch_text cfg net api_url fmt))
      \<longrightarrow> fst (fst (generic_fetch_text cfg net api_url fmt)) \<noteq> [])
   \<and> (snd (fst (generic_fetch_text cfg net api_url fmt))
       \<and> fst (fst (generic_fetch_text cfg net api_url fmt)) = []
      \<longrightarrow> (\<exists>j<retries.
             if fmt = ''image''
             then json_answer (net j) (generic_text_url cfg api_url fmt) (JStr [])
                  \<or> json_answer (net j) (generic_text_url cfg api_url fmt) (JFloat [])
             else text_answer (net j) (generic_text_url cfg api_url fmt) []))
   \<and> (\<not> snd (fst (fetch_news_text cfg net date))
      \<longrightarrow> fst (fst (fetch_news_text cfg net date)) \<noteq> [])
   \<and> (snd (fst (fetch_news_text cfg net date)) \<and> fst (fst (fetch_news_text cfg net date)) = []
      \<longrightarrow> format cfg \<noteq> ''image''
          \<and> (\<exists>j<retries. text_answer (net j) (news_text_url cfg date) []))
   \<and> fst (fst (generic_fetch_image_path cfg net api_url fmt)) \<noteq> []"
proof (intro conjI impI)
  assume "\<not> snd (fst (generic_fetch_text cfg net api_url fmt))"
  then show "fst (fst (generic_fetch_text cfg net api_url fmt)) \<noteq> []"
    unfolding generic_fetch_text_def by (rule retry_over_failed) (simp add: msg_api_error_def)
next
  assume h: "snd (fst (generic_fetch_text cfg net api_url fmt))
      \<and> fst (fst (generic_fetch_text cfg net api_url fmt)) = []"
  then obtain j where "j \<in> set [0..<retries]"
      "fst (generic_text_attempt cfg api_url fmt (net j)) = Inr []"
    using retry_over_ok[of tag_generic_text msg_api_error
        "\<lambda>attempt. generic_text_attempt cfg api_url fmt (net attempt)" "[0..<retries]"]
    unfolding generic_fetch_text_def by auto
  then show "\<exists>j<retries.
      if fmt = ''image''
      then json_answer (net j) (generic_text_url cfg api_url fmt) (JStr [])
           \<or> json_answer (net j) (generic_text_url cfg api_url fmt) (JFloat [])
      else text_answer (net j) (generic_text_url cfg api_url fmt) []"
    using text_attempt_empty[of cfg api_url fmt "net j"] by auto
next
  assume "\<not> snd (fst (fetch_news_text cfg net date))"
  then show "fst (fst (fetch_news_text cfg net date)) \<noteq> []"
    unfolding fetch_news_text_def by (rule retry_over_failed) (simp add: msg_news_api_error_def)
next
  assume h: "snd (fst (fetch_news_text cfg net date)) \<and> fst (fst (fetch_news_text cfg net date)) = []"
  then obtain j where j: "j \<in> set [0..<retries]"
      "fst (news_text_attempt cfg date (net j)) = Inr []"
    using retry_over_ok[of tag_mnews msg_news_api_error
        "\<lambda>attempt. news_text_attempt cfg date (net attempt)" "[0..<retries]"]
    unfolding fetch_news_text_def by auto
  from news_attempt_empty[OF j(2)] j(1)
  show "format cfg \<noteq> ''image''" and "\<exists>j<retries. text_answer (net j) (news_text_url cfg date) []"
    by auto
next
  show "fst (fst (generic_fetch_image_path cfg net api_url fmt)) \<noteq> []"
  proof (cases "snd (fst (generic_fetch_image_path cfg net api_url fmt))")
    case True
    then obtain j where
      "fst (generic_image_attempt cfg api_url fmt (net j))
         = Inr (fst (fst (generic_fetch_image_path cfg net api_url fmt)))"
      using retry_over_ok[of tag_generic_image msg_api_error
          "\<lambda>attempt. generic_image_attempt cfg api_url fmt (net attempt)" "[0..<retries]"]
      unfolding generic_fetch_image_path_def by auto
    then show ?thesis by (rule image_attempt_nonempty)
  next
    case False
    then show ?thesis
      unfolding generic_fetch_image_path_def by (rule retry_over_failed) (simp add: msg_api_error_def)
  qed
qed

text \<open>
  A plain-text endpoint that answers 200 with an empty body gives a successful result
  with the empty text, from the generic fetcher and from the news fetcher; so does a
  JSON endpoint whose document is the empty string.
\<close>

theorem successful_empty_payload_counterexample:
  "generic_fetch_text example_config empty_body_net ''https://api.test/x'' ''text''
     = (([], True), [Request ''https://api.test/x?format=text''])
   \<and> generic_fetch_text example_config (json_net (JStr [])) ''https://api.test/x'' ''image''
     = (([], True), [Request ''https://api.test/x?format=json''])
   \<and> fst (fetch_news_text example_config empty_body_net ''2026-11-04'') = ([], True)"
  by (simp add: generic_fetch_text_def fetch_news_text_def news_text_attempt_def news_text_url_def
      empty_body_net_def retry_over_three fetch_eval str_eval)

text \<open>
  With every request timing out the results are failures with a text; with every
  request answered by an empty body the plain-text results are successful and empty, and
  the empty answer is there at attempt 0.
\<close>

theorem successful_payload_empty_only_from_empty_answer_witness:
  "\<not> snd (fst (generic_fetch_text example_config dead_net ''https://api.test/x'' ''text''))
   \<and> fst (fst (generic_fetch_text example_config dead_net ''https://api.test/x'' ''text'')) \<noteq> []
   \<and> \<not> snd (fst (fetch_news_text example_config dead_net ''2026-11-04''))
   \<and> fst (fst (fetch_news_text example_config dead_net ''2026-11-04'')) \<noteq> []
   \<and> fst (generic_fetch_text example_config empty_body_net ''https://api.test/x'' ''text'') = ([], True)
   \<and> (\<exists>j<retries. text_answer (empty_body_net j)
                       (generic_text_url example_config ''https://api.test/x'' ''text'') [])
   \<and> fst (fetch_news_text example_config empty_body_net ''2026-11-04'') = ([], True)
   \<and> (\<exists>j<retries. text_answer (empty_body_net j) (news_text_url example_config ''2026-11-04'') [])"
proof -
  let ?api = "''https://api.test/x''"
  let ?date = "''2026-11-04''"
  note t = successful_payload_empty_only_from_empty_answer
  have d1: "\<not> snd (fst (generic_fetch_text example_config dead_net ?api ''text''))"
    by (simp add: generic_fetch_text_def retry_over_three fetch_eval)
  have d2: "\<not> snd (fst (fetch_news_text example_config dead_net ?date))"
    by (simp add: fetch_news_text_def news_text_attempt_def retry_over_three fetch_eval)
  have e1: "fst (generic_fetch_text example_config empty_body_net ?api ''text'') = ([], True)"
    by (simp add: generic_fetch_text_def empty_body_net_def retry_over_three fetch_eval)
  have e2: "fst (fetch_news_text example_config empty_body_net ?date) = ([], True)"
    by (simp add: fetch_news_text_def news_text_attempt_def empty_body_net_def retry_over_three
        fetch_eval)
  have a: "fst (fst (generic_fetch_text example_config dead_net ?api ''text'')) \<noteq> []"
    using t[of example_config dead_net ?api "''text''"] d1 by blast
  have b: "fst (fst (fetch_news_text example_config dead_net ?date)) \<noteq> []"
    using t[of example_config dead_net _ _ ?date] d2 by blast
  have c: "\<exists>j<retries. text_answer (empty_body_net j) (generic_text_url example_config ?api ''text'') []"
    using t[of example_config empty_body_net ?api "''text''"] e1 by simp
  have d: "\<exists>j<retries. text_answer (empty_body_net j) (news_text_url example_config ?date) []"
    using t[of example_config empty_body_net _ _ ?date] e2 by simp
  show ?thesis using d1 d2 e1 e2 a b c d by blast
qed


section \<open>Properties of the fan-out and of the push of one firing\<close>

lemma send_each_all_ok:
  "\<forall>i<length ts. sends (k + i) = None \<Longrightarrow>
   send_each sends msg k ts = (concat (map (\<lambda>t. [Send t msg, Sleep 2]) ts), None)"
proof (induction ts arbitrary: k)
  case Nil
  show ?case by simp
next
  case (Cons t ts)
  from Cons.prems have "sends k = None" by fastforce
  moreover have "\<forall>i<length ts. sends (Suc k + i) = None"
    using Cons.prems by fastforce
  ultimately show ?case using Cons.IH[of "Suc k"] by simp
qed

lemma send_each_fails:
  "j < length ts \<Longrightarrow> sends (k + j) = Some e \<Longrightarrow> \<forall>i<j. sends (k + i) = None \<Longrightarrow>
   send_each sends msg k ts
     = (concat (map (\<lambda>t. [Send t msg, Sleep 2]) (take j ts)) @ [Send (ts ! j) msg], Some e)"
proof (induction ts arbitrary: k j)
  case Nil
  then show ?case by simp
next
  case (Cons t ts)
  show ?case
  proof (cases j)
    case 0
    with Cons.prems show ?thesis by simp
  next
    case (Suc j')
    with Cons.prems have "sends k = None" by fastforce
    moreover have "j' < length ts" "sends (Suc k + j') = Some e" "\<forall>i<j'. sends (Suc k + i) = None"
      using Cons.prems Suc by fastforce+
    ultimately show ?thesis using Cons.IH[of j' "Suc k"] Suc by simp
  qed
qed

lemma filter_send_pairs:
  "filter is_send (concat (map (\<lambda>t. [Send t msg, Sleep 2]) ts)) = map (\<lambda>t. Send t msg) ts"
  "filter is_log_error (concat (map (\<lambda>t. [Send t msg, Sleep 2]) ts)) = []"
  "filter is_remove (concat (map (\<lambda>t. [Send t msg, Sleep 2]) ts)) = []"
  by (induction ts) (simp_all add: is_send_def is_log_error_def is_remove_def)

lemmas send_eval = send_to_groups_def send_body_def is_send_def is_remove_def is_log_error_def

text \<open>
  Claim C2, as the code has it. For a successful image payload and \<open>n\<close> destinations:
  when every send returns, the image is sent exactly once to each destination in order,
  each send followed by the pause of two seconds, and after the last one the temporary
  file is removed, exactly once; nothing is logged. The sends are not guarded one by one:
  when the send to destination \<open>j\<close> is the first to raise, the sends made are those to
  destinations \<open>0 .. j\<close>, the ones after \<open>j\<close> are not attempted, and the failure is logged
  once by the handler of the whole function.
\<close>

theorem image_fanout_sends_until_first_failure:
  "((\<forall>i<length targets. sends i = None) \<longrightarrow>
       send_to_groups (Inr (path, True)) True targets sends
         = Fetch # concat (map (\<lambda>t. [Send t (Image path), Sleep 2]) targets) @ [Remove path]
       \<and> filter is_send (send_to_groups (Inr (path, True)) True targets sends)
           = map (\<lambda>t. Send t (Image path)) targets
       \<and> filter is_remove (send_to_groups (Inr (path, True)) True targets sends) = [Remove path]
       \<and> filter is_log_error (send_to_groups (Inr (path, True)) True targets sends) = [])
   \<and> (j < length targets \<and> sends j = Some e \<and> (\<forall>i<j. sends i = None) \<longrightarrow>
       filter is_send (send_to_groups (Inr (path, True)) True targets sends)
         = map (\<lambda>t. Send t (Image path)) (take (Suc j) targets)
       \<and> filter is_log_error (send_to_groups (Inr (path, True)) True targets sends)
           = [LogError (msg_push_failed @ e)])"
proof (intro conjI impI)
  assume "\<forall>i<length targets. sends i = None"
  then have s: "send_each sends (Image path) 0 targets
      = (concat (map (\<lambda>t. [Send t (Image path), Sleep 2]) targets), None)"
    using send_each_all_ok[of targets sends 0] by simp
  then show t: "send_to_groups (Inr (path, True)) True targets sends
      = Fetch # concat (map (\<lambda>t. [Send t (Image path), Sleep 2]) targets) @ [Remove path]"
    by (simp add: send_to_groups_def send_body_def)
  show "filter is_send (send_to_groups (Inr (path, True)) True targets sends)
      = map (\<lambda>t. Send t (Image path)) targets"
    by (simp add: t filter_send_pairs) (simp add: is_send_def)
  show "filter is_remove (send_to_groups (Inr (path, True)) True targets sends) = [Remove path]"
    by (simp add: t filter_send_pairs) (simp add: is_remove_def)
  show "filter is_log_error (send_to_groups (Inr (path, True)) True targets sends) = []"
    by (simp add: t filter_send_pairs) (simp add: is_log_error_def)
next
  assume h: "j < length targets \<and> sends j = Some e \<and> (\<forall>i<j. sends i = None)"
  then have s: "send_each sends (Image path) 0 targets
      = (concat (map (\<lambda>t. [Send t (Image path), Sleep 2]) (take j targets))
           @ [Send (targets ! j) (Image path)], Some e)"
    using send_each_fails[of j targets sends 0 e] by simp
  then have t: "send_to_groups (Inr (path, True)) True targets sends
      = Fetch # concat (map (\<lambda>t. [Send t (Image path), Sleep 2]) (take j targets))
          @ [Send (targets ! j) (Image path), LogError (msg_push_failed @ e)]"
    by (simp add: send_to_groups_def send_body_def)
  from h show "filter is_send (send_to_groups (Inr (path, True)) True targets sends)
      = map (\<lambda>t. Send t (Image path)) (take (Suc j) targets)"
    by (simp add: t filter_send_pairs take_Suc_conv_app_nth) (simp add: is_send_def)
  show "filter is_log_error (send_to_groups (Inr (path, True)) True targets sends)
      = [LogError (msg_push_failed @ e)]"
    by (simp add: t filter_send_pairs) (simp add: is_log_error_def)
qed

text \<open>
  Three destinations, all sends returning: three sends, then the file is removed. With
  the second send raising: two sends and one log line.
\<close>

theorem image_fanout_sends_until_first_failure_witness:
  "send_to_groups (Inr (''/tmp/tmpab12.jpeg'', True)) True [''g1'', ''g2'', ''g3''] (\<lambda>i. None)
     = [Fetch, Send ''g1'' (Image ''/tmp/tmpab12.jpeg''), Sleep 2,
        Send ''g2'' (Image ''/tmp/tmpab12.jpeg''), Sleep 2,
        Send ''g3'' (Image ''/tmp/tmpab12.jpeg''), Sleep 2, Remove ''/tmp/tmpab12.jpeg'']
   \<and> filter is_send (send_to_groups (Inr (''/tmp/tmpab12.jpeg'', True)) True [''g1'', ''g2'', ''g3'']
                        (\<lambda>i. if i = 1 then Some ''boom'' else None))
       = [Send ''g1'' (Image ''/tmp/tmpab12.jpeg''), Send ''g2'' (Image ''/tmp/tmpab12.jpeg'')]
   \<and> filter is_log_error (send_to_groups (Inr (''/tmp/tmpab12.jpeg'', True)) True [''g1'', ''g2'', ''g3'']
                             (\<lambda>i. if i = 1 then Some ''boom'' else None))
       = [LogError (msg_push_failed @ ''boom'')]"
proof -
  let ?p = "''/tmp/tmpab12.jpeg''"
  let ?ts = "[''g1'', ''g2'', ''g3'']"
  let ?bad = "\<lambda>i::nat. if i = 1 then Some ''boom'' else None"
  have ok: "\<forall>i<length ?ts. (\<lambda>i::nat. None :: exn option) i = None" by simp
  have bad: "1 < length ?ts \<and> ?bad 1 = Some ''boom'' \<and> (\<forall>i<1. ?bad i = None)" by simp
  have a: "send_to_groups (Inr (?p, True)) True ?ts (\<lambda>i. None)
      = Fetch # concat (map (\<lambda>t. [Send t (Image ?p), Sleep 2]) ?ts) @ [Remove ?p]"
    using image_fanout_sends_until_first_failure[of ?ts "\<lambda>i. None" ?p] ok by blast
  have b: "filter is_send (send_to_groups (Inr (?p, True)) True ?ts ?bad)
        = map (\<lambda>t. Send t (Image ?p)) (take (Suc 1) ?ts)
      \<and> filter is_log_error (send_to_groups (Inr (?p, True)) True ?ts ?bad)
        = [LogError (msg_push_failed @ ''boom'')]"
    using image_fanout_sends_until_first_failure[of ?ts ?bad ?p 1 "''boom''"] bad by blast
  show ?thesis using a b by simp
qed

text \<open>
  The claim as the specification words it fails when a send raises: with three
  destinations and the second send raising, the third destination is never tried, and
  the function ends in its handler, before the line that removes the file.
\<close>

theorem image_fanout_failure_counterexample:
  "send_to_groups (Inr (''/tmp/tmpab12.jpeg'', True)) True [''g1'', ''g2'', ''g3'']
      (\<lambda>i. if i = 1 then Some ''boom'' else None)
     = [Fetch, Send ''g1'' (Image ''/tmp/tmpab12.jpeg''), Sleep 2,
        Send ''g2'' (Image ''/tmp/tmpab12.jpeg''), LogError (msg_push_failed @ ''boom'')]"
  by (simp add: send_eval)

text \<open>
  Claim C3, as the code has it. When the fetch returns a failed result, \<open>_send_to_groups\<close>
  raises an exception with the failure reason inside its own \<open>try\<close>, and the handler logs
  it: the reason is written to the error log once, no message is sent to any
  destination, and nothing is raised to the caller (the trace is all the function
  gives back).
\<close>

theorem failed_fetch_is_logged_not_sent:
  "send_to_groups (Inr (reason, False)) is_image targets sends
     = [Fetch, LogError (msg_push_failed @ reason)]
   \<and> filter is_send (send_to_groups (Inr (reason, False)) is_image targets sends) = []"
  by (simp add: send_to_groups_def send_body_def is_send_def)

text \<open>
  The claim as the specification words it fails: after a text fetch whose three requests
  time out, the three configured destinations receive nothing; the reason goes to the
  log.
\<close>

theorem failed_fetch_not_delivered_counterexample:
  "fst (generic_fetch_text example_config dead_net ''https://api.test/x'' ''text'')
     = (msg_api_error @ ''timed out'', False)
   \<and> groups example_config = [''g1'', ''g2'', ''g3'']
   \<and> send_to_groups (Inr (fst (generic_fetch_text example_config dead_net ''https://api.test/x'' ''text'')))
         False (groups example_config) (\<lambda>i. None)
       = [Fetch, LogError (msg_push_failed @ msg_api_error @ ''timed out'')]"
  by (simp add: generic_fetch_text_def retry_over_three fetch_eval send_eval)

lemma events_of_append: "events_of src (xs @ ys) = events_of src xs @ events_of src ys"
  by (simp add: events_of_def)

lemma events_of_tagged: "events_of src (map (Pair s) evs) = (if s = src then evs else [])"
  by (induction evs) (auto simp: events_of_def)

lemma events_of_simps:
  "events_of src [] = []"
  "events_of src ((s, ev) # rest) = (if s = src then ev # events_of src rest else events_of src rest)"
  by (simp_all add: events_of_def)

lemma push_enabled_events:
  "((weekday = 5 \<or> weekday = 6) \<longrightarrow>
       events_of Ai (push_enabled cfg weekday fetched sends)
         = (if enable_ai cfg then [LogInfo msg_ai_weekend] else []))
   \<and> (weekday \<noteq> 5 \<and> weekday \<noteq> 6 \<longrightarrow>
       events_of Ai (push_enabled cfg weekday fetched sends)
         = (if enable_ai cfg
            then send_to_groups (fetched Ai (if ai_format cfg = ''image'' then FetchImagePath else FetchText))
                   (ai_format cfg = ''image'') (groups cfg) (sends Ai)
            else []))
   \<and> events_of News (push_enabled cfg weekday fetched sends)
       = (if enable_news cfg
          then send_to_groups (fetched News (if format cfg = ''image'' then FetchImagePath else FetchText))
                 (format cfg = ''image'') (groups cfg) (sends News)
          else [])
   \<and> events_of Moyu (push_enabled cfg weekday fetched sends)
       = (if enable_moyu cfg
          then send_to_groups (fetched Moyu (if moyu_format cfg = ''image'' then FetchImagePath else FetchText))
                 (moyu_format cfg = ''image'') (groups cfg) (sends Moyu)
          else [])
   \<and> events_of Gold (push_enabled cfg weekday fetched sends)
       = (if enable_gold cfg
          then send_to_groups (fetched Gold (if gold_format cfg = ''image'' then FetchImagePath else FetchText))
                 (gold_format cfg = ''image'') (groups cfg) (sends Gold)
          else [])"
  by (simp add: push_enabled_def first_pushes_def push_source_def events_of_append events_of_tagged
      events_of_simps)

lemma clock_after_same_day:
  "microseconds_of_day d + n < 86400000000 \<Longrightarrow> day (clock_after d n) = day d"
  by (simp add: clock_after_def Let_def)

lemma clock_after_later_day:
  "86400000000 \<le> microseconds_of_day d + n \<Longrightarrow> day d < day (clock_after d n)"
proof -
  assume "86400000000 \<le> microseconds_of_day d + n"
  then have "1 \<le> (microseconds_of_day d + n) div 86400000000"
    by (simp add: div_greater_zero_iff Suc_le_eq)
  then show ?thesis by (simp add: clock_after_def Let_def)
qed

lemma slept_pairs: "slept (concat (map (\<lambda>t. [Send t msg, Sleep 2]) ts)) = 2 * length ts"
  by (induction ts) simp_all

lemma slept_append: "slept (xs @ ys) = slept xs + slept ys"
  by (induction xs) (simp_all split: event.splits)

lemma send_to_groups_all_ok:
  "send_to_groups (Inr (p, True)) is_image ts (\<lambda>i. None)
     = Fetch # concat (map (\<lambda>t. [Send t (if is_image then Image p else Text p), Sleep 2]) ts)
       @ (if is_image then [Remove p] else [])"
  using send_each_all_ok[of ts "\<lambda>i. None" 0]
  by (simp add: send_to_groups_def send_body_def)

lemma slept_all_ok:
  "slept (send_to_groups (Inr (p, True)) is_image ts (\<lambda>i. None)) = 2 * length ts"
  by (simp add: send_to_groups_all_ok slept_append slept_pairs)

lemma slept_push_source:
  "slept (map snd (push_source cfg example_fetched (\<lambda>src i. None) src fmt)) = 2 * length (groups cfg)"
  by (simp add: push_source_def comp_def example_fetched_def slept_all_ok)

lemma elapsed_all_ok:
  "elapsed_before_ai cfg delay example_fetched (\<lambda>src i. None)
     = 1000000 * ((if enable_news cfg then 2 * length (groups cfg) else 0)
                  + (if enable_moyu cfg then 2 * length (groups cfg) else 0)
                  + (if enable_gold cfg then 2 * length (groups cfg) else 0)) + delay"
  by (simp add: elapsed_before_ai_def first_pushes_def slept_append slept_push_source)

lemma el_late: "elapsed_before_ai late_config 1500000 example_fetched (\<lambda>src i. None) = 61500000"
  by (simp add: elapsed_all_ok late_config_def example_config_def)

lemma el_example: "elapsed_before_ai example_config 1500000 example_fetched (\<lambda>src i. None) = 19500000"
  by (simp add: elapsed_all_ok example_config_def)

lemma daily_push_events_ai:
  "enable_ai cfg \<Longrightarrow> weekday_of (ai_clock cfg fired delay fetched sends) = w \<Longrightarrow>
   events_of Ai (daily_push cfg fired delay fetched sends)
     = (if w = 5 \<or> w = 6 then [LogInfo msg_ai_weekend]
        else send_to_groups (fetched Ai (if ai_format cfg = ''image'' then FetchImagePath else FetchText))
               (ai_format cfg = ''image'') (groups cfg) (sends Ai))"
  using push_enabled_events[of w cfg fetched sends] by (auto simp: daily_push_def)

lemmas clock_eval = ai_clock_def clock_after_def microseconds_of_day_def weekday_of_def Let_def

text \<open>
  Claim C10, as the code has it. The AI push of a firing is decided by the weekday the
  clock shows when the AI step is reached, after the news, calendar and gold pushes of
  that firing have been awaited, not by the day on which the firing started. If that
  weekday is 5 (Saturday) or 6 (Sunday), the AI source makes no call of
  \<open>_send_to_groups\<close>: no fetch and no send, only the line in the info log. Otherwise an
  enabled AI source is pushed like the others. When the first three pushes end before
  midnight, the weekday read is the weekday of the firing; when they run past midnight
  it is read on a later day. The news, calendar and gold sources are pushed whenever
  they are enabled, whatever the weekday.
\<close>

theorem ai_push_follows_weekday_at_ai_step:
  "(enable_ai cfg \<and> (weekday_of (ai_clock cfg fired delay fetched sends) = 5
                     \<or> weekday_of (ai_clock cfg fired delay fetched sends) = 6) \<longrightarrow>
       events_of Ai (daily_push cfg fired delay fetched sends) = [LogInfo msg_ai_weekend])
   \<and> (enable_ai cfg \<and> weekday_of (ai_clock cfg fired delay fetched sends) \<noteq> 5
                    \<and> weekday_of (ai_clock cfg fired delay fetched sends) \<noteq> 6 \<longrightarrow>
       events_of Ai (daily_push cfg fired delay fetched sends)
         = send_to_groups (fetched Ai (if ai_format cfg = ''image'' then FetchImagePath else FetchText))
             (ai_format cfg = ''image'') (groups cfg) (sends Ai))
   \<and> (\<not> enable_ai cfg \<longrightarrow> events_of Ai (daily_push cfg fired delay fetched sends) = [])
   \<and> (microseconds_of_day fired + elapsed_before_ai cfg delay fetched sends < 86400000000 \<longrightarrow>
       weekday_of (ai_clock cfg fired delay fetched sends) = weekday_of fired)
   \<and> (86400000000 \<le> microseconds_of_day fired + elapsed_before_ai cfg delay fetched sends \<longrightarrow>
       day fired < day (ai_clock cfg fired delay fetched sends))
   \<and> events_of News (daily_push cfg fired delay fetched sends)
       = (if enable_news cfg
          then send_to_groups (fetched News (if format cfg = ''image'' then FetchImagePath else FetchText))
                 (format cfg = ''image'') (groups cfg) (sends News)
          else [])
   \<and> events_of Moyu (daily_push cfg fired delay fetched sends)
       = (if enable_moyu cfg
          then send_to_groups (fetched Moyu (if moyu_format cfg = ''image'' then FetchImagePath else FetchText))
                 (moyu_format cfg = ''image'') (groups cfg) (sends Moyu)
          else [])
   \<and> events_of Gold (daily_push cfg fired delay fetched sends)
       = (if enable_gold cfg
          then send_to_groups (fetched Gold (if gold_format cfg = ''image'' then FetchImagePath else FetchText))
                 (gold_format cfg = ''image'') (groups cfg) (sends Gold)
          else [])"
proof -
  let ?t = "ai_clock cfg fired delay fetched sends"
  note ev = push_enabled_events[of "weekday_of ?t" cfg fetched sends, folded daily_push_def]
  have a: "enable_ai cfg \<and> (weekday_of ?t = 5 \<or> weekday_of ?t = 6) \<longrightarrow>
      events_of Ai (daily_push cfg fired delay fetched sends) = [LogInfo msg_ai_weekend]"
    using ev by auto
  have b: "enable_ai cfg \<and> weekday_of ?t \<noteq> 5 \<and> weekday_of ?t \<noteq> 6 \<longrightarrow>
      events_of Ai (daily_push cfg fired delay fetched sends)
        = send_to_groups (fetched Ai (if ai_format cfg = ''image'' then FetchImagePath else FetchText))
            (ai_format cfg = ''image'') (groups cfg) (sends Ai)"
    using ev by auto
  have c: "\<not> enable_ai cfg \<longrightarrow> events_of Ai (daily_push cfg fired delay fetched sends) = []"
    using ev by (cases "weekday_of ?t = 5 \<or> weekday_of ?t = 6") auto
  have d: "microseconds_of_day fired + elapsed_before_ai cfg delay fetched sends < 86400000000 \<longrightarrow>
      weekday_of ?t = weekday_of fired"
    by (simp add: weekday_of_def ai_clock_def clock_after_same_day)
  have e: "86400000000 \<le> microseconds_of_day fired + elapsed_before_ai cfg delay fetched sends \<longrightarrow>
      day fired < day ?t"
    by (simp add: ai_clock_def clock_after_later_day)
  from ev have f: "events_of News (daily_push cfg fired delay fetched sends)
       = (if enable_news cfg
          then send_to_groups (fetched News (if format cfg = ''image'' then FetchImagePath else FetchText))
                 (format cfg = ''image'') (groups cfg) (sends News)
          else [])"
    and g: "events_of Moyu (daily_push cfg fired delay fetched sends)
       = (if enable_moyu cfg
          then send_to_groups (fetched Moyu (if moyu_format cfg = ''image'' then FetchImagePath else FetchText))
                 (moyu_format cfg = ''image'') (groups cfg) (sends Moyu)
          else [])"
    and h: "events_of Gold (daily_push cfg fired delay fetched sends)
       = (if enable_gold cfg
          then send_to_groups (fetched Gold (if gold_format cfg = ''image'' then FetchImagePath else FetchText))
                 (gold_format cfg = ''image'') (groups cfg) (sends Gold)
          else [])"
    by blast+
  show ?thesis
    by (intro conjI a b c d e f g h)
qed

text \<open>
  The claim as the specification words it, by the day of the firing, fails around
  midnight. With ten groups and the push time 23:59, the first three pushes pause for
  60 seconds. A firing on a Sunday (weekday 6) then reads the weekday on Monday and
  pushes the AI source to all ten groups; a firing on a Friday (weekday 4) reads it on
  Saturday and skips the AI source.
\<close>

theorem ai_push_firing_day_counterexample:
  "weekday_of \<lparr>day = 739004, hour = 23, minute = 59, second = 0, microsecond = 0\<rparr> = 6
   \<and> ai_clock late_config \<lparr>day = 739004, hour = 23, minute = 59, second = 0, microsecond = 0\<rparr>
        1500000 example_fetched (\<lambda>src i. None)
       = \<lparr>day = 739005, hour = 0, minute = 0, second = 1, microsecond = 500000\<rparr>
   \<and> length (filter is_send
        (events_of Ai (daily_push late_config
           \<lparr>day = 739004, hour = 23, minute = 59, second = 0, microsecond = 0\<rparr>
           1500000 example_fetched (\<lambda>src i. None)))) = 10
   \<and> weekday_of \<lparr>day = 739002, hour = 23, minute = 59, second = 0, microsecond = 0\<rparr> = 4
   \<and> events_of Ai (daily_push late_config
        \<lparr>day = 739002, hour = 23, minute = 59, second = 0, microsecond = 0\<rparr>
        1500000 example_fetched (\<lambda>src i. None)) = [LogInfo msg_ai_weekend]"
proof -
  let ?sun = "\<lparr>day = 739004, hour = 23, minute = 59, second = 0, microsecond = 0\<rparr>"
  let ?fri = "\<lparr>day = 739002, hour = 23, minute = 59, second = 0, microsecond = 0\<rparr>"
  let ?s = "\<lambda>(src::source) (i::nat). (None :: exn option)"
  have on: "enable_ai late_config" by (simp add: late_config_def example_config_def)
  have w: "weekday_of ?sun = 6" "weekday_of ?fri = 4" by (simp_all add: weekday_of_def)
  have c1: "ai_clock late_config ?sun 1500000 example_fetched ?s
      = \<lparr>day = 739005, hour = 0, minute = 0, second = 1, microsecond = 500000\<rparr>"
    by (simp add: clock_eval el_late)
  have c2: "ai_clock late_config ?fri 1500000 example_fetched ?s
      = \<lparr>day = 739003, hour = 0, minute = 0, second = 1, microsecond = 500000\<rparr>"
    by (simp add: clock_eval el_late)
  have w1: "weekday_of (ai_clock late_config ?sun 1500000 example_fetched ?s) = 0"
    by (simp add: c1 weekday_of_def)
  have w2: "weekday_of (ai_clock late_config ?fri 1500000 example_fetched ?s) = 5"
    by (simp add: c2 weekday_of_def)
  have e1: "events_of Ai (daily_push late_config ?sun 1500000 example_fetched ?s)
      = send_to_groups (Inr (''hello'', True)) False (groups late_config) (\<lambda>i. None)"
    using daily_push_events_ai[OF on w1]
    by (simp add: late_config_def example_config_def example_fetched_def)
  have n1: "length (filter is_send (events_of Ai (daily_push late_config ?sun 1500000 example_fetched ?s)))
      = 10"
    unfolding e1
    by (simp add: send_to_groups_all_ok filter_send_pairs is_send_def late_config_def)
  have e2: "events_of Ai (daily_push late_config ?fri 1500000 example_fetched ?s)
      = [LogInfo msg_ai_weekend]"
    using daily_push_events_ai[OF on w2] by simp
  show ?thesis using w c1 n1 e2 by simp
qed

text \<open>
  With three groups and every fetch and send succeeding: a firing on a Saturday at 08:00
  reads Saturday and only logs for the AI source; one on a Wednesday pushes it; with the
  AI source disabled nothing is done for it; and the firing of 23:59 with ten groups
  reaches the AI step on the next day.
\<close>

theorem ai_push_follows_weekday_at_ai_step_witness:
  "weekday_of \<lparr>day = 739003, hour = 8, minute = 0, second = 0, microsecond = 0\<rparr> = 5
   \<and> events_of Ai (daily_push example_config
        \<lparr>day = 739003, hour = 8, minute = 0, second = 0, microsecond = 0\<rparr>
        1500000 example_fetched (\<lambda>src i. None)) = [LogInfo msg_ai_weekend]
   \<and> events_of Ai (daily_push example_config
        \<lparr>day = 739000, hour = 8, minute = 0, second = 0, microsecond = 0\<rparr>
        1500000 example_fetched (\<lambda>src i. None))
       = [Fetch, Send ''g1'' (Text ''hello''), Sleep 2, Send ''g2'' (Text ''hello''), Sleep 2,
          Send ''g3'' (Text ''hello''), Sleep 2]
   \<and> events_of Ai (daily_push (example_config\<lparr>enable_ai := False\<rparr>)
        \<lparr>day = 739003, hour = 8, minute = 0, second = 0, microsecond = 0\<rparr>
        1500000 example_fetched (\<lambda>src i. None)) = []
   \<and> day \<lparr>day = 739004, hour = 23, minute = 59, second = 0, microsecond = 0\<rparr>
       < day (ai_clock late_config \<lparr>day = 739004, hour = 23, minute = 59, second = 0, microsecond = 0\<rparr>
               1500000 example_fetched (\<lambda>src i. None))"
proof -
  let ?sat = "\<lparr>day = 739003, hour = 8, minute = 0, second = 0, microsecond = 0\<rparr>"
  let ?wed = "\<lparr>day = 739000, hour = 8, minute = 0, second = 0, microsecond = 0\<rparr>"
  let ?sun = "\<lparr>day = 739004, hour = 23, minute = 59, second = 0, microsecond = 0\<rparr>"
  let ?s = "\<lambda>(src::source) (i::nat). (None :: exn option)"
  note sat = ai_push_follows_weekday_at_ai_step[of example_config ?sat 1500000 example_fetched ?s]
  note wed = ai_push_follows_weekday_at_ai_step[of example_config ?wed 1500000 example_fetched ?s]
  note off = ai_push_follows_weekday_at_ai_step[of "example_config\<lparr>enable_ai := False\<rparr>" ?sat
      1500000 example_fetched ?s]
  note sun = ai_push_follows_weekday_at_ai_step[of late_config ?sun 1500000 example_fetched ?s]
  have on: "enable_ai example_config" "\<not> enable_ai (example_config\<lparr>enable_ai := False\<rparr>)"
    by (simp_all add: example_config_def)
  have w5: "weekday_of ?sat = 5" and w2: "weekday_of ?wed = 2"
    by (simp_all add: weekday_of_def)
  have early: "microseconds_of_day ?sat + elapsed_before_ai example_config 1500000 example_fetched ?s
        < 86400000000"
      "microseconds_of_day ?wed + elapsed_before_ai example_config 1500000 example_fetched ?s
        < 86400000000"
    by (simp_all add: el_example microseconds_of_day_def)
  have late: "86400000000 \<le> microseconds_of_day ?sun
        + elapsed_before_ai late_config 1500000 example_fetched ?s"
    by (simp add: el_late microseconds_of_day_def)
  have t5: "weekday_of (ai_clock example_config ?sat 1500000 example_fetched ?s) = 5"
    using sat early(1) w5 by simp
  have t2: "weekday_of (ai_clock example_config ?wed 1500000 example_fetched ?s) = 2"
    using wed early(2) w2 by simp
  have a: "events_of Ai (daily_push example_config ?sat 1500000 example_fetched ?s)
      = [LogInfo msg_ai_weekend]"
    using sat on(1) t5 by blast
  have b: "events_of Ai (daily_push example_config ?wed 1500000 example_fetched ?s)
      = send_to_groups (example_fetched Ai (if ai_format example_config = ''image''
                                             then FetchImagePath else FetchText))
          (ai_format example_config = ''image'') (groups example_config) (?s Ai)"
    using wed on(1) t2 by simp
  have b': "events_of Ai (daily_push example_config ?wed 1500000 example_fetched ?s)
      = [Fetch, Send ''g1'' (Text ''hello''), Sleep 2, Send ''g2'' (Text ''hello''), Sleep 2,
         Send ''g3'' (Text ''hello''), Sleep 2]"
    unfolding b by (simp add: example_config_def example_fetched_def send_eval)
  have c: "events_of Ai (daily_push (example_config\<lparr>enable_ai := False\<rparr>) ?sat 1500000
      example_fetched ?s) = []"
    using off on(2) by blast
  have d: "day ?sun < day (ai_clock late_config ?sun 1500000 example_fetched ?s)"
    using sun late by blast
  show ?thesis
    using w5 a b' c d by blast
qed

end
